theory Spec2Isabelle
  imports Complex_Main "HOL-Library.Char_ord" "HOL-Library.List_Lexorder"
    "HOL-Library.Product_Lexorder"
begin

section \<open>JavaScript numbers\<close>

text \<open>
  The query library computes in JavaScript numbers, which are IEEE 754 doubles. A finite
  number is modelled by the rational it is, next to the three special values. Every
  result of JavaScript is rounded to the nearest double, ties to the even significand:
  beyond the largest double it is an infinity, and below half of the smallest one it is 0.
  The two zeros are one value (both are falsy, and both times an infinity give
  \<open>NaN\<close>).
\<close>

datatype jsnum = NaN | PInf | NInf | Fin rat

text \<open>The number of binary digits of a positive integer.\<close>

function bit_length :: "int \<Rightarrow> int" where
  "bit_length n = (if n \<le> 0 then 0 else 1 + bit_length (n div 2))"
  by pat_completeness auto
termination
  by (relation "measure nat") auto

declare bit_length.simps [simp del]

text \<open>The same number, read off the binary numeral.\<close>

fun num_bits :: "num \<Rightarrow> int" where
  "num_bits num.One = 1"
| "num_bits (num.Bit0 n) = 1 + num_bits n"
| "num_bits (num.Bit1 n) = 1 + num_bits n"

text \<open>The exponent \<open>e\<close> of a positive fraction \<open>a / b\<close>: \<open>2 ^ e \<le> a / b < 2 ^ (e + 1)\<close>.\<close>

definition floor_log2 :: "int \<Rightarrow> int \<Rightarrow> int" where
  "floor_log2 a b =
     (let d = bit_length a - bit_length b
      in if (if 0 \<le> d then 2 ^ nat d * b \<le> a else b \<le> 2 ^ nat (- d) * a)
         then d else d - 1)"

text \<open>The integer nearest to \<open>num / den\<close>, the even one of two that are equally near.\<close>

definition round_half_even :: "int \<Rightarrow> int \<Rightarrow> int" where
  "round_half_even num den =
     (let q = num div den; r = num mod den
      in if 2 * r < den then q
         else if den < 2 * r then q + 1
         else if even q then q else q + 1)"

text \<open>
  The double of a rational: a multiple of \<open>2 ^ k\<close> with a significand of 53 bits, where
  \<open>k\<close> is 52 below the exponent of the number and never below \<open>-1074\<close> (the
  subnormal numbers); an infinity from \<open>2 ^ 1024\<close> on.
\<close>

definition to_double :: "rat \<Rightarrow> jsnum" where
  "to_double x =
     (if x = 0 then Fin 0
      else
        let (a, b) = quotient_of \<bar>x\<bar>;
            e = floor_log2 a b;
            k = max e (- 1022) - 52;
            n = (if 0 \<le> k then round_half_even a (b * 2 ^ nat k)
                 else round_half_even (a * 2 ^ nat (- k)) b)
        in if 1023 < e \<or> (e = 1023 \<and> n = 2 ^ 53) then (if x < 0 then NInf else PInf)
           else
             let m = (if 0 \<le> k then of_int (n * 2 ^ nat k)
                      else of_int n / of_int (2 ^ nat (- k)))
             in Fin (if x < 0 then - m else m))"

text \<open>The product of two numbers, rounded.\<close>

fun jsmul :: "jsnum \<Rightarrow> jsnum \<Rightarrow> jsnum" where
  "jsmul NaN y = NaN"
| "jsmul (Fin a) NaN = NaN"
| "jsmul PInf NaN = NaN"
| "jsmul NInf NaN = NaN"
| "jsmul (Fin a) (Fin b) = to_double (a * b)"
| "jsmul (Fin a) PInf = (if a = 0 then NaN else if 0 < a then PInf else NInf)"
| "jsmul (Fin a) NInf = (if a = 0 then NaN else if 0 < a then NInf else PInf)"
| "jsmul PInf (Fin b) = (if b = 0 then NaN else if 0 < b then PInf else NInf)"
| "jsmul NInf (Fin b) = (if b = 0 then NaN else if 0 < b then NInf else PInf)"
| "jsmul PInf PInf = PInf"
| "jsmul PInf NInf = NInf"
| "jsmul NInf PInf = NInf"
| "jsmul NInf NInf = PInf"

text \<open>
  The sum of two stored scores is the database's, in \<open>SUM(calculated_points)\<close>: it is
  exact on a decimal column.
\<close>

fun jsadd :: "jsnum \<Rightarrow> jsnum \<Rightarrow> jsnum" where
  "jsadd NaN y = NaN"
| "jsadd (Fin a) NaN = NaN"
| "jsadd PInf NaN = NaN"
| "jsadd NInf NaN = NaN"
| "jsadd (Fin a) (Fin b) = Fin (a + b)"
| "jsadd (Fin a) PInf = PInf"
| "jsadd (Fin a) NInf = NInf"
| "jsadd PInf (Fin b) = PInf"
| "jsadd NInf (Fin b) = NInf"
| "jsadd PInf PInf = PInf"
| "jsadd NInf NInf = NInf"
| "jsadd PInf NInf = NaN"
| "jsadd NInf PInf = NaN"

text \<open>ToBoolean on a number: \<open>0\<close> and \<open>NaN\<close> are falsy.\<close>

fun js_truthy :: "jsnum \<Rightarrow> bool" where
  "js_truthy NaN = False"
| "js_truthy (Fin a) = (a \<noteq> 0)"
| "js_truthy PInf = True"
| "js_truthy NInf = True"

text \<open>The sum of a column, taken row by row from the top of the table.\<close>

definition jssum :: "jsnum list \<Rightarrow> jsnum" where
  "jssum xs = foldl jsadd (Fin 0) xs"

section \<open>Strings: \<open>parseFloat\<close>, \<open>parseInt\<close>, \<open>trim\<close>, \<open>toUpperCase\<close>\<close>

text \<open>
  A string is a list of code units below 256. \<open>parseFloat\<close> skips leading white space
  and reads the longest prefix that is a decimal literal (sign, digits, fraction,
  exponent, or \<open>Infinity\<close>); with no such prefix the result is \<open>NaN\<close>. The result is
  the double of the value of the literal.
\<close>

definition is_ws :: "char \<Rightarrow> bool" where
  "is_ws c = (c \<in> set [CHR 0x09, CHR 0x0A, CHR 0x0B, CHR 0x0C, CHR 0x0D, CHR 0x20, CHR 0xA0])"

definition is_digit :: "char \<Rightarrow> bool" where
  "is_digit c = (48 \<le> (of_char c :: nat) \<and> (of_char c :: nat) \<le> 57)"

definition digit_val :: "char \<Rightarrow> int" where
  "digit_val c = of_char c - 48"

definition digits_val :: "string \<Rightarrow> int" where
  "digits_val ds = foldl (\<lambda>n c. 10 * n + digit_val c) 0 ds"

definition strip_sign :: "string \<Rightarrow> bool \<times> string" where
  "strip_sign s = (case s of
       [] \<Rightarrow> (False, [])
     | c # cs \<Rightarrow> if c = CHR ''-'' then (True, cs)
                else if c = CHR ''+'' then (False, cs) else (False, s))"

definition parse_exponent :: "string \<Rightarrow> int" where
  "parse_exponent s = (case s of
       [] \<Rightarrow> 0
     | c # cs \<Rightarrow>
         if c = CHR ''e'' \<or> c = CHR ''E'' then
           (let (neg, ds) = strip_sign cs; e = takeWhile is_digit ds
            in if e = [] then 0
               else if neg then - digits_val e else digits_val e)
         else 0)"

definition parseFloat :: "string \<Rightarrow> jsnum" where
  "parseFloat str =
     (let (neg, s) = strip_sign (dropWhile is_ws str) in
      if take 8 s = ''Infinity'' then (if neg then NInf else PInf)
      else
        let ip = takeWhile is_digit s;
            r1 = dropWhile is_digit s;
            (fp, r2) = (case r1 of
                          [] \<Rightarrow> ([], [])
                        | c # cs \<Rightarrow> if c = CHR ''.''
                                    then (takeWhile is_digit cs, dropWhile is_digit cs)
                                    else ([], r1))
        in if ip = [] \<and> fp = [] then NaN
           else
             let n = digits_val (ip @ fp);
                 k = parse_exponent r2 - int (length fp);
                 v = (if 0 \<le> k then of_int (n * 10 ^ nat k)
                      else of_int n / of_int (10 ^ nat (- k)))
             in to_double (if neg then - v else v))"

text \<open>
  \<open>parseInt\<close> with no radix: leading white space, a sign, then hexadecimal digits after
  \<open>0x\<close> and decimal digits otherwise; \<open>NaN\<close> when there is no digit. The result is
  the double of the integer read.
\<close>

definition is_hex_digit :: "char \<Rightarrow> bool" where
  "is_hex_digit c = (is_digit c
      \<or> (97 \<le> (of_char c :: nat) \<and> (of_char c :: nat) \<le> 102)
      \<or> (65 \<le> (of_char c :: nat) \<and> (of_char c :: nat) \<le> 70))"

definition hex_digit_val :: "char \<Rightarrow> int" where
  "hex_digit_val c = (if is_digit c then of_char c - 48
                      else if 97 \<le> (of_char c :: nat) then of_char c - 87
                      else of_char c - 55)"

definition parseInt :: "string \<Rightarrow> jsnum" where
  "parseInt str =
     (let (neg, s) = strip_sign (dropWhile is_ws str);
          hex = (take 2 s = ''0x'' \<or> take 2 s = ''0X'');
          z = (if hex then takeWhile is_hex_digit (drop 2 s) else takeWhile is_digit s);
          n = (if hex then foldl (\<lambda>n c. 16 * n + hex_digit_val c) 0 z else digits_val z)
      in if z = [] then NaN
         else to_double (if neg then - of_int n else of_int n))"

definition trim :: "string \<Rightarrow> string" where
  "trim s = rev (dropWhile is_ws (rev (dropWhile is_ws s)))"

text \<open>
  \<open>toUpperCase\<close> on ASCII: the letters \<open>a\<close> to \<open>z\<close> change and every other code unit
  below 128 is kept. An invite code with other code units is outside the model.
\<close>

definition toUpperCase :: "string \<Rightarrow> string" where
  "toUpperCase s = map (\<lambda>c. if 97 \<le> (of_char c :: nat) \<and> (of_char c :: nat) \<le> 122
                              then char_of ((of_char c :: nat) - 32) else c) s"

section \<open>Objects\<close>

text \<open>
  \<open>Object.fromEntries\<close> builds an ordinary object: a later entry with the same key
  replaces an earlier one. Reading a property that the object does not own finds the
  members of \<open>Object.prototype\<close>, which are functions and objects, before it gives
  \<open>undefined\<close>.
\<close>

definition fromEntries :: "(string \<times> 'v) list \<Rightarrow> (string \<rightharpoonup> 'v)" where
  "fromEntries es = fold (\<lambda>e obj. obj(fst e \<mapsto> snd e)) es Map.empty"

datatype 'v property = Undefined | Inherited | Own 'v

definition object_prototype_keys :: "string list" where
  "object_prototype_keys =
     [''constructor'', ''__defineGetter__'', ''__defineSetter__'', ''hasOwnProperty'',
      ''__lookupGetter__'', ''__lookupSetter__'', ''isPrototypeOf'',
      ''propertyIsEnumerable'', ''toString'', ''valueOf'', ''__proto__'',
      ''toLocaleString'']"

definition get_property :: "(string \<rightharpoonup> 'v) \<Rightarrow> string \<Rightarrow> 'v property" where
  "get_property obj k = (case obj k of
       Some v \<Rightarrow> Own v
     | None \<Rightarrow> if k \<in> set object_prototype_keys then Inherited else Undefined)"

section \<open>The tables\<close>

text \<open>
  The schema is not among the sources. The columns are the ones the statements name;
  a table is the list of its rows, and a query with no \<open>ORDER BY\<close> and no grouping
  returns rows in the order of the list. Points of a raw event are exact decimals, and so
  are their sums; a stored score is the double that JavaScript sent.
\<close>

record roster =
  r_user_id :: string
  r_league_id :: int
  r_queen_name :: string
  r_rank :: int
  r_episode_number :: int

record box_score =
  b_queen_name :: string
  b_episode_number :: int
  b_points :: rat

record membership =
  m_league_id :: int
  m_user_id :: string

record queen_score =
  q_user_id :: string
  q_league_id :: int
  q_queen_name :: string
  q_episode_number :: int
  q_calculated_points :: jsnum
  q_rank :: int

record standing =
  s_user_id :: string
  s_league_id :: int
  s_total_score :: jsnum

record league =
  l_id :: int
  l_invite_code :: string
  l_league_name :: string
  l_created_by :: string

record db =
  rosters :: "roster list"
  queen_box_scores :: "box_score list"
  settings :: "(string \<times> string) list"
  league_members :: "membership list"
  user_queen_scores :: "queen_score list"
  league_standings :: "standing list"
  leagues :: "league list"

section \<open>SQL statements\<close>

text \<open>
  \<open>INSERT ... ON CONFLICT (key) DO UPDATE SET ...\<close>: a row whose key columns equal the
  new row's is updated from the new row (\<open>EXCLUDED\<close>); with no such row the new row is
  added. The unique index the statement needs on its key columns is part of the missing
  schema; with it at most one row has the key.
\<close>

definition upsert :: "('r \<Rightarrow> 'k) \<Rightarrow> ('r \<Rightarrow> 'r \<Rightarrow> 'r) \<Rightarrow> 'r \<Rightarrow> 'r list \<Rightarrow> 'r list" where
  "upsert key on_conflict excluded tbl =
     (if key excluded \<in> set (map key tbl)
      then map (\<lambda>old. if key old = key excluded then on_conflict old excluded else old) tbl
      else tbl @ [excluded])"

text \<open>\<open>INSERT ... ON CONFLICT DO NOTHING\<close>.\<close>

definition insert_do_nothing :: "('r \<Rightarrow> 'k) \<Rightarrow> 'r \<Rightarrow> 'r list \<Rightarrow> 'r list" where
  "insert_do_nothing key new tbl =
     (if key new \<in> set (map key tbl) then tbl else tbl @ [new])"

text \<open>
  \<open>SELECT key, SUM(val) ... GROUP BY key\<close>, as an aggregation: every row is added to
  the running total of its group, and a row of a new group opens it.
\<close>

definition agg_step :: "('v \<Rightarrow> 'v \<Rightarrow> 'v) \<Rightarrow> 'k \<Rightarrow> 'v \<Rightarrow> ('k \<times> 'v) list \<Rightarrow> ('k \<times> 'v) list" where
  "agg_step add k v groups =
     (if k \<in> set (map fst groups)
      then map (\<lambda>g. if fst g = k then (fst g, add (snd g) v) else g) groups
      else groups @ [(k, v)])"

definition group_sum :: "('r \<Rightarrow> 'k) \<Rightarrow> ('r \<Rightarrow> 'v) \<Rightarrow> ('v \<Rightarrow> 'v \<Rightarrow> 'v) \<Rightarrow> 'r list \<Rightarrow> ('k \<times> 'v) list" where
  "group_sum key val add rows = fold (\<lambda>r. agg_step add (key r) (val r)) rows []"

text \<open>\<open>SUM\<close> skips \<open>NULL\<close>, and is \<open>NULL\<close> when every value is.\<close>

fun sql_add :: "rat option \<Rightarrow> rat option \<Rightarrow> rat option" where
  "sql_add None y = y"
| "sql_add (Some a) None = Some a"
| "sql_add (Some a) (Some b) = Some (a + b)"

definition coalesce :: "rat option \<Rightarrow> rat \<Rightarrow> rat" where
  "coalesce x d = (case x of None \<Rightarrow> d | Some a \<Rightarrow> a)"

section \<open>Settings\<close>

text \<open>\<open>getSettings\<close>: the rows of the settings table as one object.\<close>

definition getSettings :: "(string \<times> string) list \<Rightarrow> (string \<rightharpoonup> string)" where
  "getSettings tbl = fromEntries tbl"

text \<open>
  \<open>value || "d"\<close> on a setting: \<open>undefined\<close> and the empty string are falsy. The keys
  read this way are fixed names that \<open>Object.prototype\<close> does not have.
\<close>

definition or_default :: "string option \<Rightarrow> string \<Rightarrow> string" where
  "or_default v d = (case v of None \<Rightarrow> d | Some s \<Rightarrow> if s = [] then d else s)"

text \<open>\<open>formatMultipliers\<close>, first version (defaults 2.5, 2.0, 1.5, 1.0).\<close>

definition formatMultipliers1 :: "(string \<rightharpoonup> string) \<Rightarrow> (int \<rightharpoonup> jsnum)" where
  "formatMultipliers1 cfg =
     [1 \<mapsto> parseFloat (or_default (cfg ''multiplier_rank_1'') ''2.5''),
      2 \<mapsto> parseFloat (or_default (cfg ''multiplier_rank_2'') ''2.0''),
      3 \<mapsto> parseFloat (or_default (cfg ''multiplier_rank_3'') ''1.5''),
      4 \<mapsto> parseFloat (or_default (cfg ''multiplier_rank_4'') ''1.0'')]"

text \<open>\<open>formatMultipliers\<close>, second version (defaults 2.0, 1.5, 1.0, 0.5).\<close>

definition formatMultipliers2 :: "(string \<rightharpoonup> string) \<Rightarrow> (int \<rightharpoonup> jsnum)" where
  "formatMultipliers2 cfg =
     [1 \<mapsto> parseFloat (or_default (cfg ''multiplier_rank_1'') ''2.0''),
      2 \<mapsto> parseFloat (or_default (cfg ''multiplier_rank_2'') ''1.5''),
      3 \<mapsto> parseFloat (or_default (cfg ''multiplier_rank_3'') ''1.0''),
      4 \<mapsto> parseFloat (or_default (cfg ''multiplier_rank_4'') ''0.5'')]"

text \<open>
  \<open>getCurrentEpisode\<close> (the same in both versions):
  \<open>parseInt(row[0]?.value || "1")\<close> on the rows with key \<open>current_episode\<close>.
\<close>

definition getCurrentEpisode :: "(string \<times> string) list \<Rightarrow> jsnum" where
  "getCurrentEpisode tbl =
     (let row = filter (\<lambda>r. fst r = ''current_episode'') tbl
      in parseInt (case row of
                     [] \<Rightarrow> ''1''
                   | r # rest \<Rightarrow> if snd r = [] then ''1'' else snd r))"

text \<open>\<open>mults[rank] || 1.0\<close>: a missing rank, \<open>0\<close> and \<open>NaN\<close> all give 1.\<close>

definition multiplier_for :: "(int \<rightharpoonup> jsnum) \<Rightarrow> int \<Rightarrow> jsnum" where
  "multiplier_for mults rank =
     (case mults rank of
        None \<Rightarrow> Fin 1
      | Some m \<Rightarrow> if js_truthy m then m else Fin 1)"

section \<open>\<open>recalculateScores\<close>, first version\<close>

text \<open>
  Every \<open>await sql\<close> is a statement of its own: the function opens no transaction.
  A statement that fails raises, and the function stops there; the model follows the run
  in which every statement succeeds. \<open>console.log\<close> is left out.
\<close>

text \<open>Step 1: the roster rows of the episode.\<close>

definition allRosters :: "int \<Rightarrow> db \<Rightarrow> roster list" where
  "allRosters episodeNumber s = filter (\<lambda>r. r_episode_number r = episodeNumber) (rosters s)"

text \<open>Step 2: \<open>SUM(points) ... WHERE episode_number = ... GROUP BY queen_name\<close>.\<close>

definition queenPoints :: "int \<Rightarrow> db \<Rightarrow> (string \<times> rat) list" where
  "queenPoints episodeNumber s =
     group_sum b_queen_name b_points (+)
       (filter (\<lambda>b. b_episode_number b = episodeNumber) (queen_box_scores s))"

definition pointsMap :: "int \<Rightarrow> db \<Rightarrow> (string \<rightharpoonup> rat)" where
  "pointsMap episodeNumber s = fromEntries (queenPoints episodeNumber s)"

text \<open>
  \<open>parseFloat(pointsMap[roster.queen_name] || 0)\<close>: a sum the object owns is read as
  a double; a name it does not own gives 0, unless \<open>Object.prototype\<close> has the name,
  and then \<open>parseFloat\<close> of that member is \<open>NaN\<close>.
\<close>

definition rawPoints1 :: "(string \<rightharpoonup> rat) \<Rightarrow> string \<Rightarrow> jsnum" where
  "rawPoints1 pm queen_name =
     (case get_property pm queen_name of
        Own p \<Rightarrow> to_double p
      | Inherited \<Rightarrow> NaN
      | Undefined \<Rightarrow> Fin 0)"

text \<open>Step 3, the body of the loop: the row of one roster entry.\<close>

definition score_row1 :: "(string \<rightharpoonup> rat) \<Rightarrow> (int \<rightharpoonup> jsnum) \<Rightarrow> int \<Rightarrow> roster \<Rightarrow> queen_score" where
  "score_row1 pm mults episodeNumber roster =
     (let rawPoints = rawPoints1 pm (r_queen_name roster);
          multiplier = multiplier_for mults (r_rank roster);
          points = jsmul rawPoints multiplier
      in \<lparr>q_user_id = r_user_id roster, q_league_id = r_league_id roster,
          q_queen_name = r_queen_name roster, q_episode_number = episodeNumber,
          q_calculated_points = points, q_rank = r_rank roster\<rparr>)"

text \<open>\<open>ON CONFLICT (user_id, league_id, queen_name, episode_number) DO UPDATE SET
  calculated_points, rank\<close>.\<close>

definition uqs_key1 :: "queen_score \<Rightarrow> string \<times> int \<times> string \<times> int" where
  "uqs_key1 q = (q_user_id q, q_league_id q, q_queen_name q, q_episode_number q)"

definition uqs_update1 :: "queen_score \<Rightarrow> queen_score \<Rightarrow> queen_score" where
  "uqs_update1 old excluded =
     old\<lparr>q_calculated_points := q_calculated_points excluded, q_rank := q_rank excluded\<rparr>"

definition candidates1 :: "int \<Rightarrow> db \<Rightarrow> queen_score list" where
  "candidates1 episodeNumber s =
     map (score_row1 (pointsMap episodeNumber s)
            (formatMultipliers1 (getSettings (settings s))) episodeNumber)
         (allRosters episodeNumber s)"

definition upsert_scores1 :: "int \<Rightarrow> db \<Rightarrow> db" where
  "upsert_scores1 episodeNumber s =
     s\<lparr>user_queen_scores :=
         fold (upsert uqs_key1 uqs_update1) (candidates1 episodeNumber s) (user_queen_scores s)\<rparr>"

text \<open>Step 4: \<open>SUM(calculated_points) ... GROUP BY user_id, league_id\<close>, upserted into
  the standings \<open>ON CONFLICT (user_id, league_id) DO UPDATE SET total_score\<close>.\<close>

definition score_pair :: "queen_score \<Rightarrow> string \<times> int" where
  "score_pair q = (q_user_id q, q_league_id q)"

definition season_totals :: "queen_score list \<Rightarrow> ((string \<times> int) \<times> jsnum) list" where
  "season_totals uqs = group_sum score_pair q_calculated_points jsadd uqs"

definition standing_of :: "(string \<times> int) \<times> jsnum \<Rightarrow> standing" where
  "standing_of g = \<lparr>s_user_id = fst (fst g), s_league_id = snd (fst g), s_total_score = snd g\<rparr>"

definition standing_key :: "standing \<Rightarrow> string \<times> int" where
  "standing_key st = (s_user_id st, s_league_id st)"

definition standing_update :: "standing \<Rightarrow> standing \<Rightarrow> standing" where
  "standing_update old excluded = old\<lparr>s_total_score := s_total_score excluded\<rparr>"

definition update_standings1 :: "db \<Rightarrow> db" where
  "update_standings1 s =
     s\<lparr>league_standings :=
         fold (upsert standing_key standing_update)
              (map standing_of (season_totals (user_queen_scores s))) (league_standings s)\<rparr>"

definition recalculateScores1 :: "int \<Rightarrow> db \<Rightarrow> db" where
  "recalculateScores1 episodeNumber s = update_standings1 (upsert_scores1 episodeNumber s)"

section \<open>\<open>recalculateScores\<close>, second version\<close>

text \<open>
  The second version takes the multipliers from its caller, as an object of numbers (what
  \<open>formatMultipliers\<close> returns). Step 1: rosters
  joined with the memberships of the same user, left-joined with the raw scores of the
  same contestant and episode, grouped by user, league, rank and contestant, with
  \<open>COALESCE(SUM(qbs.points), 0)\<close>. The league is the membership's; the league of the
  roster row is not read. SQL leaves the order of the groups open, and the order decides
  which of two rows with one conflict key the loop writes last: the groups come sorted by
  the grouping columns, as Postgres returns them when it groups by sorting (names are
  compared code unit by code unit).
\<close>

definition matching_points :: "db \<Rightarrow> roster \<Rightarrow> rat option list" where
  "matching_points s r =
     (let qbs = filter (\<lambda>b. r_queen_name r = b_queen_name b
                            \<and> r_episode_number r = b_episode_number b) (queen_box_scores s)
      in if qbs = [] then [None] else map (\<lambda>b. Some (b_points b)) qbs)"

definition roster_memberships :: "int \<Rightarrow> db \<Rightarrow> (roster \<times> membership) list" where
  "roster_memberships episodeNumber s =
     concat (map (\<lambda>r. map (\<lambda>lm. (r, lm))
                        (filter (\<lambda>lm. r_user_id r = m_user_id lm) (league_members s)))
                 (filter (\<lambda>r. r_episode_number r = episodeNumber) (rosters s)))"

definition group_key2 :: "roster \<times> membership \<Rightarrow> string \<times> int \<times> int \<times> string" where
  "group_key2 p = (r_user_id (fst p), m_league_id (snd p), r_rank (fst p), r_queen_name (fst p))"

definition joined2 :: "int \<Rightarrow> db \<Rightarrow> ((string \<times> int \<times> int \<times> string) \<times> rat option) list" where
  "joined2 episodeNumber s =
     concat (map (\<lambda>p. map (\<lambda>v. (group_key2 p, v)) (matching_points s (fst p)))
                 (roster_memberships episodeNumber s))"

definition epPoints :: "int \<Rightarrow> db \<Rightarrow> ((string \<times> int \<times> int \<times> string) \<times> rat) list" where
  "epPoints episodeNumber s =
     map (\<lambda>g. (fst g, coalesce (snd g) 0))
       (sort_key fst (group_sum fst snd sql_add (joined2 episodeNumber s)))"

text \<open>Step 2, the body of the loop:
  \<open>parseFloat(row.raw_points) * (multipliers[row.rank] || 1.0)\<close>.\<close>

definition score_row2 :: "(int \<rightharpoonup> jsnum) \<Rightarrow> int \<Rightarrow> (string \<times> int \<times> int \<times> string) \<times> rat \<Rightarrow> queen_score" where
  "score_row2 multipliers episodeNumber row =
     (case row of ((user_id, league_id, rank, queen_name), raw_points) \<Rightarrow>
        (let weighted = jsmul (to_double raw_points) (multiplier_for multipliers rank)
         in \<lparr>q_user_id = user_id, q_league_id = league_id, q_queen_name = queen_name,
             q_episode_number = episodeNumber, q_calculated_points = weighted,
             q_rank = rank\<rparr>))"

text \<open>\<open>ON CONFLICT (user_id, rank, episode_number) DO UPDATE SET queen_name,
  calculated_points, league_id\<close>.\<close>

definition uqs_key2 :: "queen_score \<Rightarrow> string \<times> int \<times> int" where
  "uqs_key2 q = (q_user_id q, q_rank q, q_episode_number q)"

definition uqs_update2 :: "queen_score \<Rightarrow> queen_score \<Rightarrow> queen_score" where
  "uqs_update2 old excluded =
     old\<lparr>q_queen_name := q_queen_name excluded,
         q_calculated_points := q_calculated_points excluded,
         q_league_id := q_league_id excluded\<rparr>"

definition candidates2 :: "int \<Rightarrow> (int \<rightharpoonup> jsnum) \<Rightarrow> db \<Rightarrow> queen_score list" where
  "candidates2 episodeNumber multipliers s =
     map (score_row2 multipliers episodeNumber) (epPoints episodeNumber s)"

definition upsert_scores2 :: "int \<Rightarrow> (int \<rightharpoonup> jsnum) \<Rightarrow> db \<Rightarrow> db" where
  "upsert_scores2 episodeNumber multipliers s =
     s\<lparr>user_queen_scores :=
         fold (upsert uqs_key2 uqs_update2) (candidates2 episodeNumber multipliers s)
              (user_queen_scores s)\<rparr>"

text \<open>Step 3: \<open>DELETE FROM league_standings\<close>, then the insert of the season totals
  (\<open>GROUP BY league_id, user_id\<close>: the groups of the first version).\<close>

definition delete_standings :: "db \<Rightarrow> db" where
  "delete_standings s = s\<lparr>league_standings := []\<rparr>"

definition insert_standings :: "db \<Rightarrow> db" where
  "insert_standings s =
     s\<lparr>league_standings :=
         league_standings s @ map standing_of (season_totals (user_queen_scores s))\<rparr>"

definition recalculateScores2 :: "int \<Rightarrow> (int \<rightharpoonup> jsnum) \<Rightarrow> db \<Rightarrow> db" where
  "recalculateScores2 episodeNumber multipliers s =
     insert_standings (delete_standings (upsert_scores2 episodeNumber multipliers s))"

section \<open>The rebuild of the standings as steps\<close>

text \<open>
  Between two statements of a run any reader can query the store. A step is one
  statement; the states of a run of the rebuild are the ones a reader can see.
\<close>

datatype rebuild_pc = Rebuild_start | Rebuild_deleted | Rebuild_done

inductive rebuild_step1 :: "rebuild_pc \<times> db \<Rightarrow> rebuild_pc \<times> db \<Rightarrow> bool" where
  upsert_totals: "rebuild_step1 (Rebuild_start, s) (Rebuild_done, update_standings1 s)"

inductive rebuild_step2 :: "rebuild_pc \<times> db \<Rightarrow> rebuild_pc \<times> db \<Rightarrow> bool" where
  delete_all: "rebuild_step2 (Rebuild_start, s) (Rebuild_deleted, delete_standings s)"
| insert_totals: "rebuild_step2 (Rebuild_deleted, s) (Rebuild_done, insert_standings s)"

text \<open>What a reader of the standings must never see: no standings while there are scores.\<close>

definition empty_cache :: "db \<Rightarrow> bool" where
  "empty_cache s = (league_standings s = [] \<and> user_queen_scores s \<noteq> [])"

section \<open>Joining a league\<close>

datatype response = Redirect string | Redirect_league int

text \<open>
  Modelled from the spec: the declaration of the table \<open>league_members\<close> is not among the
  sources. A membership is a pair of a league and a user, and the pair is unique; this is
  the unique index that \<open>ON CONFLICT\<close> answers to in both handlers (the newer one names
  these two columns).
\<close>

definition membership_key :: "membership \<Rightarrow> int \<times> string" where
  "membership_key lm = (m_league_id lm, m_user_id lm)"

text \<open>
  The older handler: the league is the first row with the invite code in upper case, and
  the membership is inserted \<open>ON CONFLICT DO NOTHING\<close>. The handler does not look at
  whether the cookie is there; the model is of a request that carries it. In both
  handlers the form field with the invite code is there.
\<close>

definition POST_join1 :: "string \<Rightarrow> string \<Rightarrow> db \<Rightarrow> response \<times> db" where
  "POST_join1 userId code s =
     (let inviteCode = toUpperCase code in
      case filter (\<lambda>l. l_invite_code l = inviteCode) (leagues s) of
        l # rest \<Rightarrow>
          (Redirect_league (l_id l),
           s\<lparr>league_members :=
               insert_do_nothing membership_key
                 \<lparr>m_league_id = l_id l, m_user_id = userId\<rparr> (league_members s)\<rparr>)
      | [] \<Rightarrow> (Redirect ''/dashboard?error=invalid_code'', s))"

text \<open>
  The newer handler: no cookie (or an empty one) goes to the login page; the invite code
  is trimmed; the insert is \<open>ON CONFLICT (league_id, user_id) DO NOTHING\<close>.
\<close>

definition POST_join2 :: "string option \<Rightarrow> string \<Rightarrow> db \<Rightarrow> response \<times> db" where
  "POST_join2 cookie code s =
     (case cookie of
        None \<Rightarrow> (Redirect ''/login'', s)
      | Some userId \<Rightarrow>
          if userId = [] then (Redirect ''/login'', s)
          else
            (let inviteCode = toUpperCase (trim code);
                 league = filter (\<lambda>l. l_invite_code l = inviteCode) (leagues s)
             in case league of
                  [] \<Rightarrow> (Redirect ''/leagues?error=notfound'', s)
                | l # rest \<Rightarrow>
                    (Redirect ''/leagues'',
                     s\<lparr>league_members :=
                         insert_do_nothing membership_key
                           \<lparr>m_league_id = l_id l, m_user_id = userId\<rparr> (league_members s)\<rparr>)))"

section \<open>Reference quantities\<close>

text \<open>The raw points of a contestant in an episode: the sum over the raw-score rows of
  that contestant and episode, 0 when there is none.\<close>

definition raw_total :: "db \<Rightarrow> string \<Rightarrow> int \<Rightarrow> rat" where
  "raw_total s queen_name episodeNumber =
     sum_list (map b_points
       (filter (\<lambda>b. b_queen_name b = queen_name \<and> b_episode_number b = episodeNumber)
               (queen_box_scores s)))"

text \<open>The season total of a user in a league: the sum of the calculated points of all
  score rows of the pair, of every episode.\<close>

definition pair_total :: "queen_score list \<Rightarrow> string \<times> int \<Rightarrow> jsnum" where
  "pair_total uqs p = jssum (map q_calculated_points (filter (\<lambda>q. score_pair q = p) uqs))"

text \<open>The standings hold rows of pairs with scores only. This holds of a store with no
  standings, and both versions keep it.\<close>

definition standings_backed :: "db \<Rightarrow> bool" where
  "standings_backed s =
     (set (map standing_key (league_standings s)) \<subseteq> set (map score_pair (user_queen_scores s)))"

text \<open>The setting that holds the multiplier of a rank, and the defaults of each version.\<close>

definition multiplier_key :: "int \<Rightarrow> string" where
  "multiplier_key r = (if r = 1 then ''multiplier_rank_1''
                       else if r = 2 then ''multiplier_rank_2''
                       else if r = 3 then ''multiplier_rank_3'' else ''multiplier_rank_4'')"

definition default1 :: "int \<Rightarrow> rat" where
  "default1 r = (if r = 1 then 5 / 2 else if r = 2 then 2 else if r = 3 then 3 / 2 else 1)"

definition default2 :: "int \<Rightarrow> rat" where
  "default2 r = (if r = 1 then 2 else if r = 2 then 3 / 2 else if r = 3 then 1 else 1 / 2)"

text \<open>The last row of a list with a given key, and the upserts that replace a whole row.\<close>

fun last_with :: "('r \<Rightarrow> 'k) \<Rightarrow> 'k \<Rightarrow> 'r list \<Rightarrow> 'r option" where
  "last_with key k [] = None"
| "last_with key k (c # cs) =
     (case last_with key k cs of
        Some c' \<Rightarrow> Some c'
      | None \<Rightarrow> if key c = k then Some c else None)"

definition replaces :: "('r \<Rightarrow> 'k) \<Rightarrow> ('r \<Rightarrow> 'r \<Rightarrow> 'r) \<Rightarrow> bool" where
  "replaces key on_conflict = (\<forall>old new. key old = key new \<longrightarrow> on_conflict old new = new)"

section \<open>Example stores\<close>

definition db_empty :: db where
  "db_empty = \<lparr>rosters = [], queen_box_scores = [], settings = [], league_members = [],
               user_queen_scores = [], league_standings = [], leagues = []\<rparr>"

definition jinkx_events :: "box_score list" where
  "jinkx_events = [\<lparr>b_queen_name = ''Jinkx'', b_episode_number = 2, b_points = 3\<rparr>,
                   \<lparr>b_queen_name = ''Jinkx'', b_episode_number = 2, b_points = 4\<rparr>]"

definition configured :: "(string \<times> string) list" where
  "configured = [(''multiplier_rank_1'', ''2.5''), (''multiplier_rank_2'', ''2.0''),
                 (''multiplier_rank_3'', ''1.5''), (''multiplier_rank_4'', ''1.0'')]"

text \<open>One user in one league: Jinkx at rank 1, Sasha at rank 5.\<close>

definition alice_jinkx :: roster where
  "alice_jinkx = \<lparr>r_user_id = ''alice'', r_league_id = 1, r_queen_name = ''Jinkx'',
                   r_rank = 1, r_episode_number = 2\<rparr>"

definition alice_sasha :: roster where
  "alice_sasha = \<lparr>r_user_id = ''alice'', r_league_id = 1, r_queen_name = ''Sasha'',
                   r_rank = 5, r_episode_number = 2\<rparr>"

definition alice_member :: membership where
  "alice_member = \<lparr>m_league_id = 1, m_user_id = ''alice''\<rparr>"

definition db_single :: db where
  "db_single = db_empty
     \<lparr>rosters := [alice_jinkx, alice_sasha],
      queen_box_scores := jinkx_events @
                 [\<lparr>b_queen_name = ''Sasha'', b_episode_number = 2, b_points = 7\<rparr>],
      league_members := [alice_member]\<rparr>"

text \<open>The rows of these two picks: 7 raw points at rank 1 (times 2.5) and at rank 5.\<close>

definition scored_jinkx :: queen_score where
  "scored_jinkx = \<lparr>q_user_id = ''alice'', q_league_id = 1, q_queen_name = ''Jinkx'',
                    q_episode_number = 2, q_calculated_points = Fin (35 / 2), q_rank = 1\<rparr>"

definition scored_sasha :: queen_score where
  "scored_sasha = \<lparr>q_user_id = ''alice'', q_league_id = 1, q_queen_name = ''Sasha'',
                    q_episode_number = 2, q_calculated_points = Fin 7, q_rank = 5\<rparr>"

text \<open>One user in two leagues: Jinkx at rank 1 in league 1, Sasha at rank 1 in league 2.\<close>

definition db_two_leagues :: db where
  "db_two_leagues = db_empty
     \<lparr>rosters := [\<lparr>r_user_id = ''alice'', r_league_id = 1, r_queen_name = ''Jinkx'',
                    r_rank = 1, r_episode_number = 2\<rparr>,
                  \<lparr>r_user_id = ''alice'', r_league_id = 2, r_queen_name = ''Sasha'',
                    r_rank = 1, r_episode_number = 2\<rparr>],
      queen_box_scores := jinkx_events,
      settings := configured,
      league_members := [\<lparr>m_league_id = 1, m_user_id = ''alice''\<rparr>,
                         \<lparr>m_league_id = 2, m_user_id = ''alice''\<rparr>]\<rparr>"

definition scored_sasha_league2 :: queen_score where
  "scored_sasha_league2 = \<lparr>q_user_id = ''alice'', q_league_id = 2, q_queen_name = ''Sasha'',
                            q_episode_number = 2, q_calculated_points = Fin 0, q_rank = 1\<rparr>"

text \<open>One user in two leagues, Jinkx at rank 1 in both.\<close>

definition db_same_pick :: db where
  "db_same_pick = db_empty
     \<lparr>rosters := [\<lparr>r_user_id = ''alice'', r_league_id = 1, r_queen_name = ''Jinkx'',
                    r_rank = 1, r_episode_number = 2\<rparr>,
                  \<lparr>r_user_id = ''alice'', r_league_id = 2, r_queen_name = ''Jinkx'',
                    r_rank = 1, r_episode_number = 2\<rparr>],
      queen_box_scores := jinkx_events,
      league_members := [\<lparr>m_league_id = 1, m_user_id = ''alice''\<rparr>,
                         \<lparr>m_league_id = 2, m_user_id = ''alice''\<rparr>]\<rparr>"



text \<open>A season under way: episode 1 is scored (17.5), episode 2 has Sasha at rank 2 with
  5 raw points.\<close>

definition db_season :: db where
  "db_season = db_empty
     \<lparr>rosters := [\<lparr>r_user_id = ''alice'', r_league_id = 1, r_queen_name = ''Sasha'',
                    r_rank = 2, r_episode_number = 2\<rparr>],
      queen_box_scores := [\<lparr>b_queen_name = ''Sasha'', b_episode_number = 2, b_points = 5\<rparr>],
      settings := configured,
      league_members := [\<lparr>m_league_id = 1, m_user_id = ''alice''\<rparr>],
      user_queen_scores := [\<lparr>q_user_id = ''alice'', q_league_id = 1, q_queen_name = ''Jinkx'',
                              q_episode_number = 1, q_calculated_points = Fin (35 / 2),
                              q_rank = 1\<rparr>],
      league_standings := [\<lparr>s_user_id = ''alice'', s_league_id = 1,
                             s_total_score = Fin (35 / 2)\<rparr>]\<rparr>"

definition scored_sasha2 :: queen_score where
  "scored_sasha2 = \<lparr>q_user_id = ''alice'', q_league_id = 1, q_queen_name = ''Sasha'',
                     q_episode_number = 2, q_calculated_points = Fin 10, q_rank = 2\<rparr>"

definition alice_total :: standing where
  "alice_total = \<lparr>s_user_id = ''alice'', s_league_id = 1, s_total_score = Fin (55 / 2)\<rparr>"

text \<open>The same season with a standings row of a pair that has no score.\<close>

definition db_stale :: db where
  "db_stale = db_season
     \<lparr>league_standings := league_standings db_season @
         [\<lparr>s_user_id = ''bob'', s_league_id = 9, s_total_score = Fin 5\<rparr>]\<rparr>"

text \<open>A league with its creator as the only member.\<close>

definition werk_room :: league where
  "werk_room = \<lparr>l_id = 7, l_invite_code = ''ABCD1234'', l_league_name = ''Werk Room'',
                 l_created_by = ''bob''\<rparr>"

definition db_league :: db where
  "db_league = db_empty
     \<lparr>league_members := [\<lparr>m_league_id = 7, m_user_id = ''bob''\<rparr>],
      leagues := [werk_room]\<rparr>"

text \<open>The league after alice has joined it.\<close>

definition db_joined :: db where
  "db_joined = db_league
     \<lparr>league_members := [\<lparr>m_league_id = 7, m_user_id = ''bob''\<rparr>,
                         \<lparr>m_league_id = 7, m_user_id = ''alice''\<rparr>]\<rparr>"

section \<open>Rounding to a double\<close>

lemma bit_length_numeral: "bit_length (numeral n) = num_bits n"
proof (induction n)
  case One
  show ?case by (subst bit_length.simps, subst bit_length.simps) simp
next
  case (Bit0 n)
  have "bit_length (numeral (num.Bit0 n)) = 1 + bit_length (numeral (num.Bit0 n) div 2)"
    by (subst bit_length.simps) simp
  also have "(numeral (num.Bit0 n) :: int) div 2 = numeral n" by simp
  finally show ?case using Bit0 by simp
next
  case (Bit1 n)
  have "bit_length (numeral (num.Bit1 n)) = 1 + bit_length (numeral (num.Bit1 n) div 2)"
    by (subst bit_length.simps) simp
  also have "(numeral (num.Bit1 n) :: int) div 2 = numeral n" by simp
  finally show ?case using Bit1 by simp
qed

lemma bit_length_nonpos: "n \<le> 0 \<Longrightarrow> bit_length n = 0"
  by (subst bit_length.simps) simp

text \<open>Evaluation counts the digits of the numeral instead of halving it.\<close>

lemma bit_length_code [code]:
  "bit_length (Int.Pos n) = num_bits n" "bit_length (Int.Neg n) = 0" "bit_length 0 = 0"
  by (simp_all add: Int.Pos_def Int.Neg_def bit_length_numeral bit_length_nonpos)


text \<open>
  What rounding does to the numbers of this program. Halves and quarters, and the
  integers below \<open>2\<^sup>5\<^sup>3\<close>, are doubles: they are read and multiplied exactly. The
  decimal \<open>1.1\<close> is not a double, and neither is three times the double next to it: the
  product of 3 points and a multiplier \<open>'1.1'\<close> is \<open>3.3000000000000003\<close>. A string
  below half of the smallest double is read as 0 and one beyond the largest double as
  \<open>Infinity\<close>; an integer between two doubles is read as the even one.
\<close>

lemma to_double_exact:
  "to_double (5 / 2) = Fin (5 / 2)" "to_double 7 = Fin 7" "to_double (35 / 2) = Fin (35 / 2)"
  "to_double (- 1) = Fin (- 1)" "to_double (1 / 4) = Fin (1 / 4)"
  by code_simp+

lemma parseFloat_rounds:
  "parseFloat ''1.1'' = Fin (2476979795053773 / 2251799813685248)"
  "jsmul (Fin 3) (parseFloat ''1.1'') = Fin (7430939385161319 / 2251799813685248)"
  "jsmul (Fin 3) (parseFloat ''1.1'') \<noteq> Fin (3 * (11 / 10))"
  by code_simp+

lemma parseFloat_underflow: "parseFloat ''1e-324'' = Fin 0"
  by code_simp

lemma parseFloat_overflow: "parseFloat ''1e309'' = PInf"
  by code_simp

lemma parseInt_rounds: "parseInt ''9007199254740993'' = Fin 9007199254740992"
  by code_simp

section \<open>The current episode\<close>

lemma parseInt_1: "parseInt ''1'' = Fin 1"
  by code_simp

text \<open>
  C10. With no row for the key \<open>current_episode\<close> in the settings table, or with the
  empty string as the value of that row, \<open>getCurrentEpisode\<close> returns 1: the string
  handed to \<open>parseInt\<close> is \<open>"1"\<close>.
\<close>

theorem getCurrentEpisode_default:
  assumes "''current_episode'' \<notin> set (map fst tbl)
           \<or> find (\<lambda>r. fst r = ''current_episode'') tbl = Some (''current_episode'', [])"
  shows "getCurrentEpisode tbl = Fin 1"
  using assms
proof
  assume "''current_episode'' \<notin> set (map fst tbl)"
  then have "filter (\<lambda>r. fst r = ''current_episode'') tbl = []"
    by (force simp: filter_empty_conv)
  then show ?thesis by (simp add: getCurrentEpisode_def parseInt_1)
next
  assume "find (\<lambda>r. fst r = ''current_episode'') tbl = Some (''current_episode'', [])"
  then obtain rest where
    "filter (\<lambda>r. fst r = ''current_episode'') tbl = (''current_episode'', []) # rest"
    by (induction tbl) (auto split: if_splits)
  then show ?thesis by (simp add: getCurrentEpisode_def parseInt_1)
qed

theorem getCurrentEpisode_default_witness:
  "''current_episode'' \<notin> set (map fst configured)
   \<and> getCurrentEpisode configured = Fin 1
   \<and> find (\<lambda>r. fst r = ''current_episode'')
        (configured @ [(''current_episode'', [])]) = Some (''current_episode'', [])
   \<and> getCurrentEpisode (configured @ [(''current_episode'', [])]) = Fin 1"
proof -
  have a: "''current_episode'' \<notin> set (map fst configured)"
    by (simp add: configured_def)
  have b: "find (\<lambda>r. fst r = ''current_episode'')
        (configured @ [(''current_episode'', [])]) = Some (''current_episode'', [])"
    by (simp add: configured_def)
  from a have "getCurrentEpisode configured = Fin 1"
    by (intro getCurrentEpisode_default disjI1)
  moreover from b have "getCurrentEpisode (configured @ [(''current_episode'', [])]) = Fin 1"
    by (intro getCurrentEpisode_default disjI2)
  ultimately show ?thesis using a b by blast
qed

section \<open>The multipliers\<close>

lemma parseFloat_defaults:
  "parseFloat ''2.5'' = Fin (5 / 2)" "parseFloat ''2.0'' = Fin 2" "parseFloat ''1.5'' = Fin (3 / 2)"
  "parseFloat ''1.0'' = Fin 1" "parseFloat ''0.5'' = Fin (1 / 2)"
  by code_simp+

lemma parseFloat_examples:
  "parseFloat ''3.25'' = Fin (13 / 4)" "parseFloat ''abc'' = NaN"
  "parseFloat ''-1'' = Fin (- 1)" "parseFloat ''0'' = Fin 0"
  by code_simp+

lemma multiplier_keys:
  "multiplier_key 1 = ''multiplier_rank_1''" "multiplier_key 2 = ''multiplier_rank_2''"
  "multiplier_key 3 = ''multiplier_rank_3''" "multiplier_key 4 = ''multiplier_rank_4''"
  by (simp_all add: multiplier_key_def)


text \<open>
  C6, as the code has it. For a rank from 1 to 4, both versions of \<open>formatMultipliers\<close>
  return the fixed positive default of the rank when the setting is missing or is the
  empty string. Every other configured string goes to \<open>parseFloat\<close> as it is, and the
  result is returned whatever it is: \<open>NaN\<close> for a string that is no number, and a zero
  or negative number when that is what the string says.
\<close>

theorem formatMultipliers_default_when_missing:
  assumes "r \<in> {1, 2, 3, 4}"
  shows "formatMultipliers1 cfg r =
           Some (case cfg (multiplier_key r) of
                   None \<Rightarrow> Fin (default1 r)
                 | Some v \<Rightarrow> if v = [] then Fin (default1 r) else parseFloat v)
       \<and> formatMultipliers2 cfg r =
           Some (case cfg (multiplier_key r) of
                   None \<Rightarrow> Fin (default2 r)
                 | Some v \<Rightarrow> if v = [] then Fin (default2 r) else parseFloat v)
       \<and> 0 < default1 r \<and> 0 < default2 r"
proof -
  from assms consider "r = 1" | "r = 2" | "r = 3" | "r = 4" by auto
  then show ?thesis
  proof cases
    case 1
    then show ?thesis
      by (simp add: formatMultipliers1_def formatMultipliers2_def multiplier_keys or_default_def
          default1_def default2_def parseFloat_defaults split: option.splits)
  next
    case 2
    then show ?thesis
      by (simp add: formatMultipliers1_def formatMultipliers2_def multiplier_keys or_default_def
          default1_def default2_def parseFloat_defaults split: option.splits)
  next
    case 3
    then show ?thesis
      by (simp add: formatMultipliers1_def formatMultipliers2_def multiplier_keys or_default_def
          default1_def default2_def parseFloat_defaults split: option.splits)
  next
    case 4
    then show ?thesis
      by (simp add: formatMultipliers1_def formatMultipliers2_def multiplier_keys or_default_def
          default1_def default2_def parseFloat_defaults split: option.splits)
  qed
qed

theorem formatMultipliers_default_when_missing_witness:
  "(2 :: int) \<in> {1, 2, 3, 4}
   \<and> formatMultipliers1 (getSettings [(''multiplier_rank_1'', ''3.25'')]) 2 = Some (Fin 2)
   \<and> formatMultipliers2 (getSettings [(''multiplier_rank_1'', ''3.25'')]) 2 = Some (Fin (3 / 2))
   \<and> (1 :: int) \<in> {1, 2, 3, 4}
   \<and> formatMultipliers1 (getSettings [(''multiplier_rank_1'', ''3.25'')]) 1 = Some (Fin (13 / 4))
   \<and> formatMultipliers2 (getSettings [(''multiplier_rank_1'', ''3.25'')]) 1 = Some (Fin (13 / 4))"
proof -
  have a: "(2 :: int) \<in> {1, 2, 3, 4}" and b: "(1 :: int) \<in> {1, 2, 3, 4}" by simp_all
  show ?thesis
    using formatMultipliers_default_when_missing[OF a, of "getSettings [(''multiplier_rank_1'', ''3.25'')]"]
      formatMultipliers_default_when_missing[OF b, of "getSettings [(''multiplier_rank_1'', ''3.25'')]"]
    by (simp add: multiplier_keys getSettings_def fromEntries_def default1_def default2_def
        parseFloat_examples)
qed

text \<open>
  C6 as stated fails: the string \<open>abc\<close> is no decimal number and \<open>-1\<close> and \<open>0\<close> are
  not positive, and in each case the result is not the default of rank 1 (2.5 in the
  first version, 2.0 in the second) but what \<open>parseFloat\<close> made of the string.
\<close>

theorem formatMultipliers_keeps_bad_values:
  "parseFloat ''abc'' = NaN
   \<and> formatMultipliers1 (getSettings [(''multiplier_rank_1'', ''abc'')]) 1 = Some NaN
   \<and> formatMultipliers2 (getSettings [(''multiplier_rank_1'', ''abc'')]) 1 = Some NaN
   \<and> formatMultipliers1 (getSettings [(''multiplier_rank_1'', ''-1'')]) 1 = Some (Fin (- 1))
   \<and> formatMultipliers2 (getSettings [(''multiplier_rank_1'', ''-1'')]) 1 = Some (Fin (- 1))
   \<and> formatMultipliers1 (getSettings [(''multiplier_rank_1'', ''0'')]) 1 = Some (Fin 0)
   \<and> formatMultipliers2 (getSettings [(''multiplier_rank_1'', ''0'')]) 1 = Some (Fin 0)
   \<and> default1 1 = 5 / 2 \<and> default2 1 = 2"
  by (simp add: formatMultipliers1_def formatMultipliers2_def getSettings_def fromEntries_def
      or_default_def default1_def default2_def parseFloat_examples)

section \<open>Upserts\<close>

lemma last_with_snoc:
  "last_with key k (cs @ [x]) = (if key x = k then Some x else last_with key k cs)"
  by (induction cs) (auto split: option.splits)

lemma last_with_Some: "last_with key k cs = Some c \<Longrightarrow> c \<in> set cs \<and> key c = k"
  by (induction cs) (auto split: option.splits if_splits)

lemma last_with_None: "last_with key k cs = None \<longleftrightarrow> k \<notin> set (map key cs)"
  by (induction cs) (auto split: option.splits if_splits)

lemma last_with_distinct:
  "distinct (map key cs) \<Longrightarrow> c \<in> set cs \<Longrightarrow> last_with key (key c) cs = Some c"
proof (induction cs)
  case Nil
  then show ?case by simp
next
  case (Cons x cs)
  show ?case
  proof (cases "c \<in> set cs")
    case True
    with Cons show ?thesis by simp
  next
    case False
    with Cons.prems have cx: "c = x" and "key x \<notin> set (map key cs)" by auto
    then have "last_with key (key c) cs = None" by (simp add: last_with_None)
    with cx show ?thesis by simp
  qed
qed

lemma upsert_replace:
  assumes "replaces key oc"
  shows "upsert key oc c t =
     (if key c \<in> set (map key t) then map (\<lambda>e. if key e = key c then c else e) t else t @ [c])"
  using assms unfolding upsert_def replaces_def by auto

lemma upsert_keys:
  assumes "replaces key oc"
  shows "map key (upsert key oc c t) =
     (if key c \<in> set (map key t) then map key t else map key t @ [key c])"
  unfolding upsert_replace[OF assms] by (auto intro: map_idI)

lemma fold_upsert_snoc:
  "fold (upsert key oc) (cs @ [x]) t = upsert key oc x (fold (upsert key oc) cs t)"
  by simp

lemma fold_upsert_key_set:
  assumes "replaces key oc"
  shows "set (map key (fold (upsert key oc) cs t)) = set (map key cs) \<union> set (map key t)"
proof (induction cs arbitrary: t)
  case Nil
  then show ?case by simp
next
  case (Cons c cs)
  have "set (map key (upsert key oc c t)) = insert (key c) (set (map key t))"
    unfolding upsert_keys[OF assms] by auto
  with Cons show ?case by auto
qed

lemma fold_upsert_distinct:
  assumes "replaces key oc" and "distinct (map key t)"
  shows "distinct (map key (fold (upsert key oc) cs t))"
  using assms(2)
proof (induction cs arbitrary: t)
  case Nil
  then show ?case by simp
next
  case (Cons c cs)
  have "distinct (map key (upsert key oc c t))"
    unfolding upsert_keys[OF assms(1)] using Cons.prems by auto
  then show ?case using Cons.IH by simp
qed

lemma upsert_member:
  assumes "replaces key oc" and "e \<in> set (upsert key oc x t)"
  shows "(key e = key x \<and> e = x) \<or> (key e \<noteq> key x \<and> e \<in> set t)"
proof (cases "key x \<in> set (map key t)")
  case True
  with assms(2) show ?thesis unfolding upsert_replace[OF assms(1)] by auto
next
  case False
  with assms(2) have "e = x \<or> e \<in> set t" unfolding upsert_replace[OF assms(1)] by auto
  moreover have "key e \<noteq> key x" if "e \<in> set t"
    using that False by (metis imageI set_map)
  ultimately show ?thesis by blast
qed

lemma fold_upsert_last:
  assumes "replaces key oc"
  shows "e \<in> set (fold (upsert key oc) cs t) \<Longrightarrow> last_with key (key e) cs = Some c \<Longrightarrow> e = c"
proof (induction cs arbitrary: e c rule: rev_induct)
  case Nil
  then show ?case by simp
next
  case (snoc x cs)
  from snoc.prems(1) have "e \<in> set (upsert key oc x (fold (upsert key oc) cs t))" by simp
  from upsert_member[OF assms this] show ?case
  proof
    assume "key e = key x \<and> e = x"
    with snoc.prems(2) show ?thesis by (simp add: last_with_snoc)
  next
    assume h: "key e \<noteq> key x \<and> e \<in> set (fold (upsert key oc) cs t)"
    with snoc.prems(2) have "last_with key (key e) cs = Some c"
      by (auto simp: last_with_snoc split: if_splits)
    with h snoc.IH show ?thesis by blast
  qed
qed

lemma fold_upsert_untouched:
  assumes "replaces key oc"
  shows "key e \<notin> set (map key cs) \<Longrightarrow> e \<in> set (fold (upsert key oc) cs t) \<longleftrightarrow> e \<in> set t"
proof (induction cs arbitrary: t)
  case Nil
  then show ?case by simp
next
  case (Cons c cs)
  have "e \<in> set (upsert key oc c t) \<longleftrightarrow> e \<in> set t"
    unfolding upsert_replace[OF assms] using Cons.prems by auto
  with Cons show ?case by simp
qed

lemma fold_upsert_present:
  assumes "replaces key oc"
  shows "set (map key cs) \<subseteq> set (map key t) \<Longrightarrow>
     fold (upsert key oc) cs t =
       map (\<lambda>e. case last_with key (key e) cs of None \<Rightarrow> e | Some c \<Rightarrow> c) t"
proof (induction cs arbitrary: t rule: rev_induct)
  case Nil
  then show ?case by (simp add: map_idI)
next
  case (snoc x cs)
  let ?T = "fold (upsert key oc) cs t"
  from snoc.prems have sub: "set (map key cs) \<subseteq> set (map key t)" and x: "key x \<in> set (map key t)"
    by auto
  have T: "?T = map (\<lambda>e. case last_with key (key e) cs of None \<Rightarrow> e | Some c \<Rightarrow> c) t"
    using snoc.IH[OF sub] .
  have "key x \<in> set (map key ?T)"
    using x fold_upsert_key_set[OF assms, of cs t] by auto
  then have "upsert key oc x ?T = map (\<lambda>e. if key e = key x then x else e) ?T"
    unfolding upsert_replace[OF assms] by simp
  also have "\<dots> = map (\<lambda>e. case last_with key (key e) (cs @ [x]) of None \<Rightarrow> e | Some c \<Rightarrow> c) t"
    unfolding T by (auto simp: last_with_snoc split: option.splits dest: last_with_Some)
  finally show ?case by simp
qed

lemma fold_upsert_idem:
  assumes "replaces key oc"
  shows "fold (upsert key oc) cs (fold (upsert key oc) cs t) = fold (upsert key oc) cs t"
proof -
  let ?T = "fold (upsert key oc) cs t"
  have "set (map key cs) \<subseteq> set (map key ?T)"
    using fold_upsert_key_set[OF assms, of cs t] by auto
  then have "fold (upsert key oc) cs ?T =
      map (\<lambda>e. case last_with key (key e) cs of None \<Rightarrow> e | Some c \<Rightarrow> c) ?T"
    by (rule fold_upsert_present[OF assms])
  also have "\<dots> = ?T"
    by (rule map_idI) (auto split: option.splits dest: fold_upsert_last[OF assms])
  finally show ?thesis .
qed

lemma replaces_uqs1: "replaces uqs_key1 uqs_update1"
  by (simp add: replaces_def uqs_key1_def uqs_update1_def)

lemma replaces_uqs2: "replaces uqs_key2 uqs_update2"
  by (simp add: replaces_def uqs_key2_def uqs_update2_def)

lemma replaces_standing: "replaces standing_key standing_update"
  by (simp add: replaces_def standing_key_def standing_update_def)

section \<open>Aggregation\<close>

lemma agg_step_keys:
  "map fst (agg_step add k v g) = (if k \<in> set (map fst g) then map fst g else map fst g @ [k])"
  unfolding agg_step_def by (auto intro: map_idI)

lemma fold_agg_distinct:
  "distinct (map fst acc) \<Longrightarrow>
   distinct (map fst (fold (\<lambda>r. agg_step add (key r) (val r)) rows acc))"
proof (induction rows arbitrary: acc)
  case Nil
  then show ?case by simp
next
  case (Cons r rows)
  have "distinct (map fst (agg_step add (key r) (val r) acc))"
    unfolding agg_step_keys using Cons.prems by auto
  then show ?case using Cons.IH by simp
qed

lemma fold_agg_key_set:
  "set (map fst (fold (\<lambda>r. agg_step add (key r) (val r)) rows acc)) =
   set (map key rows) \<union> set (map fst acc)"
proof (induction rows arbitrary: acc)
  case Nil
  then show ?case by simp
next
  case (Cons r rows)
  have "set (map fst (agg_step add (key r) (val r) acc)) = insert (key r) (set (map fst acc))"
    unfolding agg_step_keys by auto
  with Cons show ?case by auto
qed

lemma map_of_agg_bump:
  "map_of (map (\<lambda>g. if fst g = k then (fst g, add (snd g) v) else g) groups) k' =
   (if k' = k then map_option (\<lambda>s. add s v) (map_of groups k) else map_of groups k')"
  by (induction groups) auto

lemma map_of_agg_step:
  "map_of (agg_step add k v g) k' =
     (if k' = k then Some (case map_of g k of None \<Rightarrow> v | Some s \<Rightarrow> add s v)
      else map_of g k')"
proof (cases "k \<in> set (map fst g)")
  case True
  then obtain s where "map_of g k = Some s"
    by (metis map_of_eq_None_iff not_Some_eq set_map)
  with True show ?thesis
    unfolding agg_step_def by (simp add: map_of_agg_bump)
next
  case False
  then have "map_of g k = None" by (simp add: map_of_eq_None_iff)
  with False show ?thesis
    unfolding agg_step_def by (auto simp: map_add_def split: option.splits)
qed

lemma map_of_fold_agg:
  "map_of (fold (\<lambda>r. agg_step add (key r) (val r)) rows acc) k =
     (case map_of acc k of
        Some s \<Rightarrow> Some (foldl add s (map val (filter (\<lambda>r. key r = k) rows)))
      | None \<Rightarrow> (case filter (\<lambda>r. key r = k) rows of
                   [] \<Rightarrow> None
                 | r # rs \<Rightarrow> Some (foldl add (val r) (map val rs))))"
proof (induction rows arbitrary: acc)
  case Nil
  then show ?case by (simp split: option.splits)
next
  case (Cons r rows)
  show ?case
    by (simp add: Cons.IH map_of_agg_step split: option.splits)
qed

lemma map_of_group_sum:
  "map_of (group_sum key val add rows) k =
     (case filter (\<lambda>r. key r = k) rows of
        [] \<Rightarrow> None
      | r # rs \<Rightarrow> Some (foldl add (val r) (map val rs)))"
  unfolding group_sum_def by (simp add: map_of_fold_agg)

lemma group_sum_distinct: "distinct (map fst (group_sum key val add rows))"
  unfolding group_sum_def by (rule fold_agg_distinct) simp

lemma group_sum_key_set: "set (map fst (group_sum key val add rows)) = set (map key rows)"
  unfolding group_sum_def using fold_agg_key_set[of add key val rows "[]"] by simp

lemma jsadd_zero: "jsadd (Fin 0) x = x"
  by (cases x) auto

lemma jssum_Cons: "jssum (x # xs) = foldl jsadd x xs"
  by (simp add: jssum_def jsadd_zero)

lemma foldl_add_rat: "foldl (+) (a :: rat) xs = a + sum_list xs"
  by (induction xs arbitrary: a) (auto simp: add.assoc)

lemma fold_fromEntries:
  "distinct (map fst es) \<Longrightarrow> fold (\<lambda>e obj. obj(fst e \<mapsto> snd e)) es m = m ++ map_of es"
proof (induction es arbitrary: m)
  case Nil
  then show ?case by simp
next
  case (Cons e es)
  then have "map_of es (fst e) = None" by (simp add: map_of_eq_None_iff)
  then have step: "m(fst e \<mapsto> snd e) ++ map_of es = m ++ map_of (e # es)"
    by (cases e) (auto simp: map_add_def fun_eq_iff split: option.splits)
  have d: "distinct (map fst es)" using Cons.prems by simp
  have "fold (\<lambda>e obj. obj(fst e \<mapsto> snd e)) (e # es) m =
        fold (\<lambda>e obj. obj(fst e \<mapsto> snd e)) es (m(fst e \<mapsto> snd e))"
    by simp
  also have "\<dots> = m(fst e \<mapsto> snd e) ++ map_of es"
    by (rule Cons.IH[OF d])
  also have "\<dots> = m ++ map_of (e # es)"
    by (rule step)
  finally show ?case .
qed

lemma fromEntries_distinct:
  "distinct (map fst es) \<Longrightarrow> fromEntries es = map_of es"
  by (simp add: fromEntries_def fold_fromEntries)

section \<open>The first version: raw points and rows\<close>

lemma pointsMap_lookup:
  "pointsMap ep s q =
     (if q \<in> set (map b_queen_name (filter (\<lambda>b. b_episode_number b = ep) (queen_box_scores s)))
      then Some (raw_total s q ep) else None)"
proof -
  let ?rows = "filter (\<lambda>b. b_episode_number b = ep) (queen_box_scores s)"
  have ff: "filter (\<lambda>b. b_queen_name b = q) ?rows =
        filter (\<lambda>b. b_queen_name b = q \<and> b_episode_number b = ep) (queen_box_scores s)"
    by (simp add: conj_commute)
  have "pointsMap ep s q = map_of (queenPoints ep s) q"
    unfolding pointsMap_def queenPoints_def
    by (simp add: fromEntries_distinct group_sum_distinct)
  also have "\<dots> = (case filter (\<lambda>b. b_queen_name b = q) ?rows of
        [] \<Rightarrow> None
      | r # rs \<Rightarrow> Some (foldl (+) (b_points r) (map b_points rs)))"
    unfolding queenPoints_def by (rule map_of_group_sum)
  also have "\<dots> = (if q \<in> set (map b_queen_name ?rows) then Some (raw_total s q ep) else None)"
  proof (cases "filter (\<lambda>b. b_queen_name b = q) ?rows")
    case Nil
    then have "q \<notin> set (map b_queen_name ?rows)"
      by (force simp: filter_empty_conv)
    with Nil show ?thesis by simp
  next
    case (Cons r rs)
    then have "r \<in> set (filter (\<lambda>b. b_queen_name b = q) ?rows)" by simp
    then have "q \<in> set (map b_queen_name ?rows)" by force
    moreover have "raw_total s q ep = foldl (+) (b_points r) (map b_points rs)"
      unfolding raw_total_def ff[symmetric] Cons by (simp add: foldl_add_rat)
    ultimately show ?thesis using Cons by simp
  qed
  finally show ?thesis .
qed



lemma rawPoints1_scored:
  assumes "q \<in> set (map b_queen_name (filter (\<lambda>b. b_episode_number b = ep) (queen_box_scores s)))"
  shows "rawPoints1 (pointsMap ep s) q = to_double (raw_total s q ep)"
  using assms
  by (simp add: rawPoints1_def get_property_def pointsMap_lookup)

lemma uqs_recalculateScores1:
  "user_queen_scores (recalculateScores1 ep s) =
     fold (upsert uqs_key1 uqs_update1) (candidates1 ep s) (user_queen_scores s)"
  by (simp add: recalculateScores1_def update_standings1_def upsert_scores1_def)

lemma last_with_key_present:
  "k \<in> set (map key cs) \<Longrightarrow> \<exists>c. last_with key k cs = Some c"
  using last_with_None[of key k cs] by (cases "last_with key k cs") auto

lemma fold_upsert_row:
  assumes "replaces key oc" and "k \<in> set (map key cs)"
  shows "\<exists>c \<in> set cs. key c = k \<and> c \<in> set (fold (upsert key oc) cs t)
           \<and> (\<forall>e \<in> set (fold (upsert key oc) cs t). key e = k \<longrightarrow> e = c)"
proof -
  from last_with_key_present[OF assms(2)] obtain c where c: "last_with key k cs = Some c" ..
  then have cin: "c \<in> set cs" and ck: "key c = k" by (auto dest: last_with_Some)
  have "k \<in> set (map key (fold (upsert key oc) cs t))"
    using assms(2) fold_upsert_key_set[OF assms(1), of cs t] by auto
  then obtain e where e: "e \<in> set (fold (upsert key oc) cs t)" "key e = k" by auto
  with c have "e = c" using fold_upsert_last[OF assms(1)] by metis
  with e have "c \<in> set (fold (upsert key oc) cs t)" by simp
  moreover have "\<forall>e \<in> set (fold (upsert key oc) cs t). key e = k \<longrightarrow> e = c"
    using c fold_upsert_last[OF assms(1)] by metis
  ultimately show ?thesis using cin ck by blast
qed


lemma score_row1_fields:
  "uqs_key1 (score_row1 pm mults ep r) = (r_user_id r, r_league_id r, r_queen_name r, ep)"
  "q_rank (score_row1 pm mults ep r) = r_rank r"
  "q_queen_name (score_row1 pm mults ep r) = r_queen_name r"
  "q_calculated_points (score_row1 pm mults ep r) =
     jsmul (rawPoints1 pm (r_queen_name r)) (multiplier_for mults (r_rank r))"
  by (simp_all add: score_row1_def uqs_key1_def Let_def)

section \<open>The second version: the joined aggregate\<close>








lemma epPoints_keys:
  "map fst (epPoints ep s) =
     map fst (sort_key fst (group_sum fst snd sql_add (joined2 ep s)))"
  by (simp add: epPoints_def comp_def)

lemma epPoints_sorted: "sorted (map fst (epPoints ep s))"
  unfolding epPoints_keys by (rule sorted_sort_key)

lemma epPoints_distinct: "distinct (map fst (epPoints ep s))"
proof -
  have "distinct (map fst (group_sum fst snd sql_add (joined2 ep s)))"
    by (rule group_sum_distinct)
  then show ?thesis
    unfolding epPoints_keys by (simp add: distinct_map)
qed





section \<open>The weighted score\<close>




text \<open>A contestant with no raw-score row whose name is a member of
  \<open>Object.prototype\<close> does not get 0 raw points.\<close>

lemma inherited_name_is_NaN:
  assumes "q \<in> set object_prototype_keys"
    and "q \<notin> set (map b_queen_name
            (filter (\<lambda>b. b_episode_number b = ep) (queen_box_scores s)))"
  shows "rawPoints1 (pointsMap ep s) q = NaN"
  using assms by (simp add: rawPoints1_def get_property_def pointsMap_lookup)

text \<open>A multiplier too small for a double is read as 0, and counts as 1 like a 0.\<close>

lemma tiny_multiplier_counts_as_one:
  "formatMultipliers1 (getSettings [(''multiplier_rank_1'', ''1e-324'')]) 1 = Some (Fin 0)"
  "multiplier_for (formatMultipliers1 (getSettings [(''multiplier_rank_1'', ''1e-324'')])) 1 = Fin 1"
  "multiplier_for (formatMultipliers2 (getSettings [(''multiplier_rank_1'', ''1e-324'')])) 1 = Fin 1"
  by code_simp+





section \<open>Season totals\<close>

lemma season_totals_lookup:
  "map_of (season_totals uqs) p =
     (if p \<in> set (map score_pair uqs) then Some (pair_total uqs p) else None)"
proof -
  let ?f = "filter (\<lambda>q. score_pair q = p) uqs"
  have m: "map_of (season_totals uqs) p =
      (case ?f of [] \<Rightarrow> None
       | r # rs \<Rightarrow> Some (foldl jsadd (q_calculated_points r) (map q_calculated_points rs)))"
    unfolding season_totals_def by (rule map_of_group_sum)
  show ?thesis
  proof (cases ?f)
    case Nil
    then have "p \<notin> set (map score_pair uqs)"
      by (force simp: filter_empty_conv)
    with Nil m show ?thesis by simp
  next
    case (Cons r rs)
    then have "r \<in> set ?f" by simp
    then have "p \<in> set (map score_pair uqs)" by force
    with Cons m show ?thesis by (simp add: pair_total_def jssum_Cons)
  qed
qed

lemma season_totals_distinct: "distinct (map fst (season_totals uqs))"
  unfolding season_totals_def by (rule group_sum_distinct)

lemma season_totals_keys: "set (map fst (season_totals uqs)) = set (map score_pair uqs)"
  unfolding season_totals_def by (rule group_sum_key_set)

lemma standing_key_of: "standing_key (standing_of g) = fst g"
  by (simp add: standing_key_def standing_of_def)

lemma new_standings_keys:
  "map standing_key (map standing_of (season_totals uqs)) = map fst (season_totals uqs)"
  by (simp add: standing_key_of comp_def)

lemma new_standings_total:
  assumes "c \<in> set (map standing_of (season_totals uqs))"
  shows "s_total_score c = pair_total uqs (standing_key c)"
proof -
  from assms obtain g where g: "g \<in> set (season_totals uqs)" "c = standing_of g"
    by auto
  obtain k t where kt: "g = (k, t)" by (cases g)
  with g have "map_of (season_totals uqs) k = Some t"
    by (simp add: season_totals_distinct)
  then have "t = pair_total uqs k"
    unfolding season_totals_lookup by (simp split: if_splits)
  with g kt show ?thesis by (simp add: standing_of_def standing_key_def)
qed

lemma uqs_update_standings1: "user_queen_scores (update_standings1 s) = user_queen_scores s"
  by (simp add: update_standings1_def)

lemma uqs_rebuilt: "user_queen_scores (insert_standings (delete_standings s)) = user_queen_scores s"
  by (simp add: insert_standings_def delete_standings_def)

lemma update_standings1_keys:
  "set (map standing_key (league_standings (update_standings1 s))) =
     set (map score_pair (user_queen_scores s)) \<union> set (map standing_key (league_standings s))"
proof -
  have "league_standings (update_standings1 s) =
      fold (upsert standing_key standing_update)
        (map standing_of (season_totals (user_queen_scores s))) (league_standings s)"
    by (simp add: update_standings1_def)
  then show ?thesis
    by (simp only: fold_upsert_key_set[OF replaces_standing] new_standings_keys
        season_totals_keys)
qed

lemma update_standings1_totals:
  assumes "st \<in> set (league_standings (update_standings1 s))"
    and "standing_key st \<in> set (map score_pair (user_queen_scores s))"
  shows "s_total_score st = pair_total (user_queen_scores s) (standing_key st)"
proof -
  let ?cs = "map standing_of (season_totals (user_queen_scores s))"
  have st: "league_standings (update_standings1 s) =
      fold (upsert standing_key standing_update) ?cs (league_standings s)"
    by (simp add: update_standings1_def)
  have "standing_key st \<in> set (map standing_key ?cs)"
    unfolding new_standings_keys season_totals_keys using assms(2) .
  from fold_upsert_row[OF replaces_standing this, of "league_standings s"]
  obtain c where c: "c \<in> set ?cs"
      "\<forall>e \<in> set (league_standings (update_standings1 s)).
         standing_key e = standing_key st \<longrightarrow> e = c"
    unfolding st by blast
  with assms(1) have "st = c" by blast
  with new_standings_total[OF c(1)] show ?thesis by simp
qed

lemma rebuilt_standings:
  "league_standings (insert_standings (delete_standings s)) =
     map standing_of (season_totals (user_queen_scores s))"
  by (simp add: insert_standings_def delete_standings_def)

lemma upsert_scores1_keeps_pairs:
  "set (map score_pair (user_queen_scores s)) \<subseteq>
   set (map score_pair (user_queen_scores (upsert_scores1 ep s)))"
proof -
  let ?U = "fold (upsert uqs_key1 uqs_update1) (candidates1 ep s) (user_queen_scores s)"
  have p: "\<And>q. score_pair q = (fst (uqs_key1 q), fst (snd (uqs_key1 q)))"
    by (simp add: score_pair_def uqs_key1_def)
  have "set (map uqs_key1 (user_queen_scores s)) \<subseteq> set (map uqs_key1 ?U)"
    unfolding fold_upsert_key_set[OF replaces_uqs1] by blast
  then have "(\<lambda>k. (fst k, fst (snd k))) ` set (map uqs_key1 (user_queen_scores s))
      \<subseteq> (\<lambda>k. (fst k, fst (snd k))) ` set (map uqs_key1 ?U)"
    by (rule image_mono)
  then have "set (map score_pair (user_queen_scores s)) \<subseteq> set (map score_pair ?U)"
    by (simp add: p image_image)
  then show ?thesis by (simp add: upsert_scores1_def)
qed

lemma standings_backed_empty: "league_standings s = [] \<Longrightarrow> standings_backed s"
  by (simp add: standings_backed_def)

lemma recalculateScores1_totals:
  assumes "standings_backed s"
  shows "set (map standing_key (league_standings (recalculateScores1 ep s)))
           = set (map score_pair (user_queen_scores (recalculateScores1 ep s)))"
    and "st \<in> set (league_standings (recalculateScores1 ep s)) \<Longrightarrow>
           s_total_score st
             = pair_total (user_queen_scores (recalculateScores1 ep s)) (standing_key st)"
proof -
  let ?t = "upsert_scores1 ep s"
  have t: "league_standings ?t = league_standings s"
    by (simp add: upsert_scores1_def)
  have sub: "set (map standing_key (league_standings ?t))
      \<subseteq> set (map score_pair (user_queen_scores ?t))"
    using assms upsert_scores1_keeps_pairs[of s ep]
    unfolding standings_backed_def t by blast
  show keys: "set (map standing_key (league_standings (recalculateScores1 ep s)))
           = set (map score_pair (user_queen_scores (recalculateScores1 ep s)))"
    unfolding recalculateScores1_def uqs_update_standings1 update_standings1_keys
    using sub by blast
  assume "st \<in> set (league_standings (recalculateScores1 ep s))"
  then have a: "st \<in> set (league_standings (update_standings1 ?t))"
    by (simp add: recalculateScores1_def)
  then have "standing_key st \<in> set (map score_pair (user_queen_scores ?t))"
    using keys unfolding recalculateScores1_def uqs_update_standings1 by force
  from update_standings1_totals[OF a this]
  show "s_total_score st
      = pair_total (user_queen_scores (recalculateScores1 ep s)) (standing_key st)"
    by (simp add: recalculateScores1_def uqs_update_standings1)
qed

lemma recalculateScores2_totals:
  shows "set (map standing_key (league_standings (recalculateScores2 ep m s)))
           = set (map score_pair (user_queen_scores (recalculateScores2 ep m s)))"
    and "st \<in> set (league_standings (recalculateScores2 ep m s)) \<Longrightarrow>
           s_total_score st
             = pair_total (user_queen_scores (recalculateScores2 ep m s)) (standing_key st)"
proof -
  let ?t = "upsert_scores2 ep m s"
  show "set (map standing_key (league_standings (recalculateScores2 ep m s)))
           = set (map score_pair (user_queen_scores (recalculateScores2 ep m s)))"
    unfolding recalculateScores2_def uqs_rebuilt rebuilt_standings
    by (simp only: new_standings_keys season_totals_keys)
  assume "st \<in> set (league_standings (recalculateScores2 ep m s))"
  then have "st \<in> set (map standing_of (season_totals (user_queen_scores ?t)))"
    by (simp add: recalculateScores2_def rebuilt_standings)
  from new_standings_total[OF this]
  show "s_total_score st
      = pair_total (user_queen_scores (recalculateScores2 ep m s)) (standing_key st)"
    by (simp add: recalculateScores2_def uqs_rebuilt)
qed

lemma recalculateScores_keep_backed:
  "standings_backed s \<Longrightarrow> standings_backed (recalculateScores1 ep s)"
  "standings_backed (recalculateScores2 ep m s)"
  using recalculateScores1_totals(1) recalculateScores2_totals(1)
  by (simp_all add: standings_backed_def)

text \<open>
  C5. After a run of either version the standings have a row for exactly the pairs of a
  user and a league that have a score row, and the total of every standings row is the
  sum of the calculated points of all score rows of its pair, whatever their episode.
  For the first version, which only adds to the standings, this is of a store whose
  standings held no row of a pair without scores before the run.
\<close>

theorem standings_are_season_totals:
  "(standings_backed s \<longrightarrow>
      set (map standing_key (league_standings (recalculateScores1 ep s)))
        = set (map score_pair (user_queen_scores (recalculateScores1 ep s)))
    \<and> (\<forall>st \<in> set (league_standings (recalculateScores1 ep s)).
          s_total_score st
            = pair_total (user_queen_scores (recalculateScores1 ep s)) (standing_key st)))
 \<and> set (map standing_key (league_standings (recalculateScores2 ep m s)))
        = set (map score_pair (user_queen_scores (recalculateScores2 ep m s)))
 \<and> (\<forall>st \<in> set (league_standings (recalculateScores2 ep m s)).
          s_total_score st
            = pair_total (user_queen_scores (recalculateScores2 ep m s)) (standing_key st))"
proof (intro conjI impI ballI)
  assume "standings_backed s"
  then show "set (map standing_key (league_standings (recalculateScores1 ep s)))
        = set (map score_pair (user_queen_scores (recalculateScores1 ep s)))"
    by (rule recalculateScores1_totals(1))
next
  fix st
  assume "standings_backed s" and "st \<in> set (league_standings (recalculateScores1 ep s))"
  then show "s_total_score st
      = pair_total (user_queen_scores (recalculateScores1 ep s)) (standing_key st)"
    by (rule recalculateScores1_totals(2))
next
  show "set (map standing_key (league_standings (recalculateScores2 ep m s)))
        = set (map score_pair (user_queen_scores (recalculateScores2 ep m s)))"
    by (rule recalculateScores2_totals(1))
next
  fix st
  assume "st \<in> set (league_standings (recalculateScores2 ep m s))"
  then show "s_total_score st
      = pair_total (user_queen_scores (recalculateScores2 ep m s)) (standing_key st)"
    by (rule recalculateScores2_totals(2))
qed

theorem standings_are_season_totals_witness:
  "standings_backed db_season
   \<and> user_queen_scores (recalculateScores1 2 db_season)
        = user_queen_scores db_season @ [scored_sasha2]
   \<and> league_standings (recalculateScores1 2 db_season) = [alice_total]
   \<and> Fin (55 / 2) = pair_total (user_queen_scores (recalculateScores1 2 db_season)) (''alice'', 1)
   \<and> league_standings (recalculateScores2 2 [2 \<mapsto> Fin 2] db_season) = [alice_total]
   \<and> Fin (55 / 2)
        = pair_total (user_queen_scores (recalculateScores2 2 [2 \<mapsto> Fin 2] db_season))
            (''alice'', 1)"
proof -
  note T = standings_are_season_totals[of db_season 2 "[2 \<mapsto> Fin 2]"]
  have b: "standings_backed db_season"
    by (simp add: standings_backed_def db_season_def db_empty_def standing_key_def
        score_pair_def)
  have u1: "user_queen_scores (recalculateScores1 2 db_season)
        = user_queen_scores db_season @ [scored_sasha2]"
    by code_simp
  have l1: "league_standings (recalculateScores1 2 db_season) = [alice_total]"
    by code_simp
  have l2: "league_standings (recalculateScores2 2 [2 \<mapsto> Fin 2] db_season) = [alice_total]"
    by code_simp
  from T b have "\<forall>st \<in> set (league_standings (recalculateScores1 2 db_season)).
      s_total_score st
        = pair_total (user_queen_scores (recalculateScores1 2 db_season)) (standing_key st)"
    by blast
  then have c1: "Fin (55 / 2)
      = pair_total (user_queen_scores (recalculateScores1 2 db_season)) (''alice'', 1)"
    unfolding l1 by (simp add: standing_key_def alice_total_def)
  from T have "\<forall>st \<in> set (league_standings (recalculateScores2 2 [2 \<mapsto> Fin 2] db_season)).
      s_total_score st
        = pair_total (user_queen_scores (recalculateScores2 2 [2 \<mapsto> Fin 2] db_season))
            (standing_key st)"
    by blast
  then have c2: "Fin (55 / 2)
      = pair_total (user_queen_scores (recalculateScores2 2 [2 \<mapsto> Fin 2] db_season))
          (''alice'', 1)"
    unfolding l2 by (simp add: standing_key_def alice_total_def)
  from b u1 l1 c1 l2 c2 show ?thesis by blast
qed

section \<open>Running twice\<close>

lemma candidates1_inputs:
  "rosters t = rosters s \<Longrightarrow> queen_box_scores t = queen_box_scores s \<Longrightarrow>
   settings t = settings s \<Longrightarrow> candidates1 ep t = candidates1 ep s"
  by (simp add: candidates1_def pointsMap_def queenPoints_def allRosters_def)

lemma candidates2_inputs:
  "rosters t = rosters s \<Longrightarrow> queen_box_scores t = queen_box_scores s \<Longrightarrow>
   league_members t = league_members s \<Longrightarrow> candidates2 ep m t = candidates2 ep m s"
  by (simp add: candidates2_def epPoints_def joined2_def roster_memberships_def
      matching_points_def)

lemma recalculateScores1_expand:
  "recalculateScores1 ep s =
     s\<lparr>user_queen_scores :=
          fold (upsert uqs_key1 uqs_update1) (candidates1 ep s) (user_queen_scores s),
       league_standings :=
          fold (upsert standing_key standing_update)
            (map standing_of (season_totals
               (fold (upsert uqs_key1 uqs_update1) (candidates1 ep s) (user_queen_scores s))))
            (league_standings s)\<rparr>"
  by (simp add: recalculateScores1_def update_standings1_def upsert_scores1_def)

lemma recalculateScores2_expand:
  "recalculateScores2 ep m s =
     s\<lparr>user_queen_scores :=
          fold (upsert uqs_key2 uqs_update2) (candidates2 ep m s) (user_queen_scores s),
       league_standings :=
          map standing_of (season_totals
            (fold (upsert uqs_key2 uqs_update2) (candidates2 ep m s) (user_queen_scores s)))\<rparr>"
  by (simp add: recalculateScores2_def insert_standings_def delete_standings_def
      upsert_scores2_def)

lemma recalculateScores1_twice:
  "recalculateScores1 ep (recalculateScores1 ep s) = recalculateScores1 ep s"
proof -
  let ?t = "recalculateScores1 ep s"
  have c: "candidates1 ep ?t = candidates1 ep s"
    by (rule candidates1_inputs) (simp_all add: recalculateScores1_expand)
  have u: "user_queen_scores ?t =
      fold (upsert uqs_key1 uqs_update1) (candidates1 ep s) (user_queen_scores s)"
    by (simp add: recalculateScores1_expand)
  define C where "C = map standing_of (season_totals (user_queen_scores ?t))"
  have l: "league_standings ?t =
      fold (upsert standing_key standing_update) C (league_standings s)"
    by (simp add: C_def recalculateScores1_expand)
  have u': "fold (upsert uqs_key1 uqs_update1) (candidates1 ep ?t) (user_queen_scores ?t) =
      user_queen_scores ?t"
    unfolding c u by (rule fold_upsert_idem[OF replaces_uqs1])
  have "fold (upsert standing_key standing_update) C (league_standings ?t) =
      league_standings ?t"
    unfolding l by (rule fold_upsert_idem[OF replaces_standing])
  then have l': "fold (upsert standing_key standing_update)
        (map standing_of (season_totals (user_queen_scores ?t))) (league_standings ?t) =
      league_standings ?t"
    by (simp only: C_def)
  have "recalculateScores1 ep ?t =
      ?t\<lparr>user_queen_scores := user_queen_scores ?t, league_standings := league_standings ?t\<rparr>"
    by (subst recalculateScores1_expand[of ep ?t]) (simp only: u' l')
  then show ?thesis by simp
qed

lemma recalculateScores2_twice:
  "recalculateScores2 ep m (recalculateScores2 ep m s) = recalculateScores2 ep m s"
proof -
  let ?t = "recalculateScores2 ep m s"
  have c: "candidates2 ep m ?t = candidates2 ep m s"
    by (rule candidates2_inputs) (simp_all add: recalculateScores2_expand)
  have u: "user_queen_scores ?t =
      fold (upsert uqs_key2 uqs_update2) (candidates2 ep m s) (user_queen_scores s)"
    by (simp add: recalculateScores2_expand)
  have l: "league_standings ?t = map standing_of (season_totals (user_queen_scores ?t))"
    by (simp add: recalculateScores2_expand)
  have u': "fold (upsert uqs_key2 uqs_update2) (candidates2 ep m ?t) (user_queen_scores ?t) =
      user_queen_scores ?t"
    unfolding c u by (rule fold_upsert_idem[OF replaces_uqs2])
  have "recalculateScores2 ep m ?t =
      ?t\<lparr>user_queen_scores := user_queen_scores ?t, league_standings := league_standings ?t\<rparr>"
    by (subst recalculateScores2_expand[of ep m ?t]) (simp only: u' l[symmetric])
  then show ?thesis by simp
qed

text \<open>A run adds no second row with a key that a row has: neither to the scores nor,
  in the first version, to the standings.\<close>

lemma recalculateScores1_keys_distinct:
  "distinct (map uqs_key1 (user_queen_scores s)) \<Longrightarrow>
   distinct (map uqs_key1 (user_queen_scores (recalculateScores1 ep s)))"
  "distinct (map standing_key (league_standings s)) \<Longrightarrow>
   distinct (map standing_key (league_standings (recalculateScores1 ep s)))"
  by (simp_all add: recalculateScores1_expand fold_upsert_distinct replaces_uqs1
      replaces_standing)

lemma recalculateScores2_keys_distinct:
  "distinct (map uqs_key2 (user_queen_scores s)) \<Longrightarrow>
   distinct (map uqs_key2 (user_queen_scores (recalculateScores2 ep m s)))"
  "distinct (map standing_key (league_standings (recalculateScores2 ep m s)))"
proof -
  show "distinct (map uqs_key2 (user_queen_scores s)) \<Longrightarrow>
      distinct (map uqs_key2 (user_queen_scores (recalculateScores2 ep m s)))"
    by (simp add: recalculateScores2_expand fold_upsert_distinct replaces_uqs2)
  have "league_standings (recalculateScores2 ep m s) =
      map standing_of (season_totals (user_queen_scores (recalculateScores2 ep m s)))"
    by (simp add: recalculateScores2_expand)
  then show "distinct (map standing_key (league_standings (recalculateScores2 ep m s)))"
    by (simp only: new_standings_keys season_totals_distinct)
qed

lemma funpow_idem:
  assumes "\<And>x. f (f x) = f x" and "1 \<le> n"
  shows "(f ^^ n) x = f x"
  using assms(2)
proof (induction n)
  case 0
  then show ?case by simp
next
  case (Suc n)
  show ?case
  proof (cases "n = 0")
    case True
    then show ?thesis by simp
  next
    case False
    with Suc.IH have "(f ^^ n) x = f x" by simp
    then show ?thesis by (simp add: assms(1))
  qed
qed

text \<open>
  C7. With the rosters, the raw scores, the memberships and the settings (for the second
  version, the multipliers passed in) unchanged, running either version \<open>n\<close> times in a
  row for the same episode, \<open>n\<close> at least 1, leaves the store as one run does.
\<close>

theorem recalculateScores_idempotent:
  assumes "1 \<le> n"
  shows "(recalculateScores1 ep ^^ n) s = recalculateScores1 ep s
       \<and> (recalculateScores2 ep m ^^ n) s = recalculateScores2 ep m s"
  using funpow_idem[of "recalculateScores1 ep" n s, OF recalculateScores1_twice assms]
    funpow_idem[of "recalculateScores2 ep m" n s, OF recalculateScores2_twice assms]
  by simp

theorem recalculateScores_idempotent_witness:
  "(1 :: nat) \<le> 3
   \<and> (recalculateScores1 2 ^^ 3) db_single = recalculateScores1 2 db_single
   \<and> (recalculateScores2 2 [1 \<mapsto> Fin (5 / 2)] ^^ 3) db_single
       = recalculateScores2 2 [1 \<mapsto> Fin (5 / 2)] db_single
   \<and> user_queen_scores ((recalculateScores1 2 ^^ 3) db_single) = [scored_jinkx, scored_sasha]"
proof -
  have n: "(1 :: nat) \<le> 3" by simp
  note T = recalculateScores_idempotent[OF n, of 2 db_single "[1 \<mapsto> Fin (5 / 2)]"]
  have "user_queen_scores (recalculateScores1 2 db_single) = [scored_jinkx, scored_sasha]"
    by code_simp
  with T have "user_queen_scores ((recalculateScores1 2 ^^ 3) db_single)
      = [scored_jinkx, scored_sasha]"
    by (simp only:)
  with T n show ?thesis by blast
qed

section \<open>The conflict key of the score rows\<close>

text \<open>
  In the first version two roster entries of an episode that differ in user, league or
  contestant leave two rows, whatever else the run writes.
\<close>

lemma score_rows_kept_apart1:
  assumes "r1 \<in> set (allRosters ep s)" and "r2 \<in> set (allRosters ep s)"
    and "(r_user_id r1, r_league_id r1, r_queen_name r1) \<noteq>
         (r_user_id r2, r_league_id r2, r_queen_name r2)"
  shows "\<exists>e1 \<in> set (user_queen_scores (recalculateScores1 ep s)).
         \<exists>e2 \<in> set (user_queen_scores (recalculateScores1 ep s)).
           uqs_key1 e1 = (r_user_id r1, r_league_id r1, r_queen_name r1, ep)
         \<and> uqs_key1 e2 = (r_user_id r2, r_league_id r2, r_queen_name r2, ep)
         \<and> e1 \<noteq> e2"
proof -
  let ?pm = "pointsMap ep s" and ?mu = "formatMultipliers1 (getSettings (settings s))"
  let ?k1 = "(r_user_id r1, r_league_id r1, r_queen_name r1, ep)"
  let ?k2 = "(r_user_id r2, r_league_id r2, r_queen_name r2, ep)"
  have "score_row1 ?pm ?mu ep r1 \<in> set (candidates1 ep s)"
    using assms(1) by (simp add: candidates1_def)
  moreover have "uqs_key1 (score_row1 ?pm ?mu ep r1) = ?k1" by (simp add: score_row1_fields)
  ultimately have k1: "?k1 \<in> set (map uqs_key1 (candidates1 ep s))" by force
  have "score_row1 ?pm ?mu ep r2 \<in> set (candidates1 ep s)"
    using assms(2) by (simp add: candidates1_def)
  moreover have "uqs_key1 (score_row1 ?pm ?mu ep r2) = ?k2" by (simp add: score_row1_fields)
  ultimately have k2: "?k2 \<in> set (map uqs_key1 (candidates1 ep s))" by force
  from fold_upsert_row[OF replaces_uqs1 k1, of "user_queen_scores s"]
  obtain e1 where e1: "e1 \<in> set (user_queen_scores (recalculateScores1 ep s))" "uqs_key1 e1 = ?k1"
    unfolding uqs_recalculateScores1 by blast
  from fold_upsert_row[OF replaces_uqs1 k2, of "user_queen_scores s"]
  obtain e2 where e2: "e2 \<in> set (user_queen_scores (recalculateScores1 ep s))" "uqs_key1 e2 = ?k2"
    unfolding uqs_recalculateScores1 by blast
  from e1(2) e2(2) assms(3) have "e1 \<noteq> e2" by auto
  with e1 e2 show ?thesis by blast
qed

text \<open>
  C1 on the second version. Alice is a member of leagues 1 and 2 and has, for episode 2,
  Jinkx at rank 1 in league 1 and Sasha at rank 1 in league 2. The join gives four rows to
  the loop, all with the conflict key (alice, rank 1, episode 2), and one row is left: the
  row of Jinkx in league 1 is overwritten. The first version leaves both.
\<close>

theorem rank_key_collapses_leagues:
  "map uqs_key2 (candidates2 2 [1 \<mapsto> Fin (5 / 2)] db_two_leagues)
     = [(''alice'', 1, 2), (''alice'', 1, 2), (''alice'', 1, 2), (''alice'', 1, 2)]
   \<and> user_queen_scores (recalculateScores2 2 [1 \<mapsto> Fin (5 / 2)] db_two_leagues)
     = [scored_sasha_league2]
   \<and> user_queen_scores (recalculateScores1 2 db_two_leagues)
     = [scored_jinkx, scored_sasha_league2]"
proof (intro conjI)
  show "map uqs_key2 (candidates2 2 [1 \<mapsto> Fin (5 / 2)] db_two_leagues)
     = [(''alice'', 1, 2), (''alice'', 1, 2), (''alice'', 1, 2), (''alice'', 1, 2)]"
    by code_simp
  show "user_queen_scores (recalculateScores2 2 [1 \<mapsto> Fin (5 / 2)] db_two_leagues)
     = [scored_sasha_league2]"
    by code_simp
  show "user_queen_scores (recalculateScores1 2 db_two_leagues)
     = [scored_jinkx, scored_sasha_league2]"
    by code_simp
qed

section \<open>What a reader sees during the rebuild\<close>

lemma update_standings1_nonempty:
  "user_queen_scores s \<noteq> [] \<Longrightarrow> league_standings (update_standings1 s) \<noteq> []"
proof -
  assume "user_queen_scores s \<noteq> []"
  then have "set (map score_pair (user_queen_scores s)) \<noteq> {}" by simp
  then have "set (map standing_key (league_standings (update_standings1 s))) \<noteq> {}"
    unfolding update_standings1_keys by blast
  then show ?thesis by auto
qed

text \<open>
  In the first version the rebuild is one statement, and the state it leaves has
  standings whenever it has scores.
\<close>

lemma rebuild1_never_empty:
  assumes "rebuild_step1 (pc, s) (pc', s')"
  shows "\<not> empty_cache s'"
  using assms
proof cases
  case upsert_totals
  then show ?thesis
    using update_standings1_nonempty[of s]
    by (auto simp: empty_cache_def uqs_update_standings1)
qed

lemma rebuild1_reachable_never_empty:
  assumes "rebuild_step1\<^sup>*\<^sup>* (Rebuild_start, s) (pc, s')"
  shows "s' = s \<or> \<not> empty_cache s'"
proof -
  have "rebuild_step1\<^sup>*\<^sup>* x y \<Longrightarrow> y = x \<or> \<not> empty_cache (snd y)" for x y
  proof (induction rule: rtranclp_induct)
    case base
    then show ?case by simp
  next
    case (step y z)
    from step.hyps(2) have "\<not> empty_cache (snd z)"
      by (cases y; cases z) (auto dest: rebuild1_never_empty)
    then show ?case by simp
  qed
  from this[OF assms] show ?thesis by auto
qed

text \<open>
  In the second version the rebuild is two statements, and the state between them has no
  standings: it is an empty cache whenever there are scores.
\<close>

lemma rebuild2_reaches_empty_cache:
  assumes "user_queen_scores s \<noteq> []"
  shows "rebuild_step2\<^sup>*\<^sup>* (Rebuild_start, s) (Rebuild_deleted, delete_standings s)
       \<and> empty_cache (delete_standings s)"
proof
  show "rebuild_step2\<^sup>*\<^sup>* (Rebuild_start, s) (Rebuild_deleted, delete_standings s)"
    by (rule r_into_rtranclp) (rule rebuild_step2.delete_all)
  show "empty_cache (delete_standings s)"
    using assms by (simp add: empty_cache_def delete_standings_def)
qed

lemma rebuild2_run:
  "rebuild_step2 (Rebuild_start, upsert_scores2 ep m s)
       (Rebuild_deleted, delete_standings (upsert_scores2 ep m s))
   \<and> rebuild_step2 (Rebuild_deleted, delete_standings (upsert_scores2 ep m s))
       (Rebuild_done, recalculateScores2 ep m s)"
  unfolding recalculateScores2_def by (intro conjI rebuild_step2.intros)

text \<open>
  C2 on the second version. In the season under way the standings hold alice's total
  before the rebuild. After the first statement of the rebuild, and before the second,
  the standings are empty and the scores are not: this is a state a reader can see.
\<close>

theorem rebuild2_shows_empty_cache:
  "\<not> empty_cache (upsert_scores2 2 [2 \<mapsto> Fin 2] db_season)
   \<and> rebuild_step2 (Rebuild_start, upsert_scores2 2 [2 \<mapsto> Fin 2] db_season)
        (Rebuild_deleted, delete_standings (upsert_scores2 2 [2 \<mapsto> Fin 2] db_season))
   \<and> empty_cache (delete_standings (upsert_scores2 2 [2 \<mapsto> Fin 2] db_season))
   \<and> rebuild_step2 (Rebuild_deleted, delete_standings (upsert_scores2 2 [2 \<mapsto> Fin 2] db_season))
        (Rebuild_done, recalculateScores2 2 [2 \<mapsto> Fin 2] db_season)"
proof (intro conjI)
  show "\<not> empty_cache (upsert_scores2 2 [2 \<mapsto> Fin 2] db_season)"
    by (simp add: empty_cache_def upsert_scores2_def db_season_def db_empty_def)
  show "empty_cache (delete_standings (upsert_scores2 2 [2 \<mapsto> Fin 2] db_season))"
    unfolding empty_cache_def by code_simp
  show "rebuild_step2 (Rebuild_start, upsert_scores2 2 [2 \<mapsto> Fin 2] db_season)
        (Rebuild_deleted, delete_standings (upsert_scores2 2 [2 \<mapsto> Fin 2] db_season))"
    using rebuild2_run by blast
  show "rebuild_step2 (Rebuild_deleted, delete_standings (upsert_scores2 2 [2 \<mapsto> Fin 2] db_season))
        (Rebuild_done, recalculateScores2 2 [2 \<mapsto> Fin 2] db_season)"
    using rebuild2_run by blast
qed

section \<open>The aggregated raw points\<close>

text \<open>
  C4 on the second version. Alice has Jinkx at rank 1 in both of her leagues, and Jinkx
  has two events, of 3 and 4 points. The join pairs each of the two roster rows with each
  of the two memberships, so each group holds every event twice: the raw points the
  second version uses are 14, not 7. The first version sums the events once
  (\<open>pointsMap_lookup\<close>); the second is right only by the count of such pairs
  (\<open>epPoints_raw\<close>).
\<close>

theorem join_counts_events_twice:
  "raw_total db_same_pick ''Jinkx'' 2 = 7
   \<and> queenPoints 2 db_same_pick = [(''Jinkx'', 7)]
   \<and> epPoints 2 db_same_pick
       = [((''alice'', 1, 1, ''Jinkx''), 14), ((''alice'', 2, 1, ''Jinkx''), 14)]"
proof (intro conjI)
  show "raw_total db_same_pick ''Jinkx'' 2 = 7"
    by code_simp
  show "queenPoints 2 db_same_pick = [(''Jinkx'', 7)]"
    by code_simp
  show "epPoints 2 db_same_pick
       = [((''alice'', 1, 1, ''Jinkx''), 14), ((''alice'', 2, 1, ''Jinkx''), 14)]"
    by code_simp
qed

section \<open>The two versions side by side\<close>

text \<open>
  C8. The two versions disagree, and each of their three differences is enough for it.
  With the four multipliers configured (so that both read the same mapping) and alice in
  two leagues, the conflict keys leave different score rows. With one league and a
  standings row of a pair without scores, the score rows agree and the standings differ:
  the upsert keeps the row, the rebuild removes it. With no multiplier configured, the
  default of rank 1 is 2.5 in one version and 2.0 in the other, and so are the points.
\<close>

theorem versions_disagree:
  "formatMultipliers1 (getSettings (settings db_two_leagues)) 1
     = formatMultipliers2 (getSettings (settings db_two_leagues)) 1
   \<and> user_queen_scores (recalculateScores1 2 db_two_leagues)
     = [scored_jinkx, scored_sasha_league2]
   \<and> user_queen_scores (recalculateScores2 2
        (formatMultipliers2 (getSettings (settings db_two_leagues))) db_two_leagues)
     = [scored_sasha_league2]
   \<and> user_queen_scores (recalculateScores1 2 db_stale)
     = user_queen_scores (recalculateScores2 2
        (formatMultipliers2 (getSettings (settings db_stale))) db_stale)
   \<and> league_standings (recalculateScores1 2 db_stale)
     = [alice_total, \<lparr>s_user_id = ''bob'', s_league_id = 9, s_total_score = Fin 5\<rparr>]
   \<and> league_standings (recalculateScores2 2
        (formatMultipliers2 (getSettings (settings db_stale))) db_stale)
     = [alice_total]
   \<and> formatMultipliers1 (getSettings (settings db_single)) 1 = Some (Fin (5 / 2))
   \<and> formatMultipliers2 (getSettings (settings db_single)) 1 = Some (Fin 2)
   \<and> user_queen_scores (recalculateScores1 2 db_single) = [scored_jinkx, scored_sasha]
   \<and> user_queen_scores (recalculateScores2 2
        (formatMultipliers2 (getSettings (settings db_single))) db_single)
     = [scored_jinkx\<lparr>q_calculated_points := Fin 14\<rparr>, scored_sasha]"
proof (intro conjI)
  show "formatMultipliers1 (getSettings (settings db_two_leagues)) 1
     = formatMultipliers2 (getSettings (settings db_two_leagues)) 1"
    by code_simp
  show "user_queen_scores (recalculateScores1 2 db_two_leagues)
     = [scored_jinkx, scored_sasha_league2]"
    by code_simp
  show "user_queen_scores (recalculateScores2 2
        (formatMultipliers2 (getSettings (settings db_two_leagues))) db_two_leagues)
     = [scored_sasha_league2]"
    by code_simp
  show "user_queen_scores (recalculateScores1 2 db_stale)
     = user_queen_scores (recalculateScores2 2
        (formatMultipliers2 (getSettings (settings db_stale))) db_stale)"
    by code_simp
  show "league_standings (recalculateScores1 2 db_stale)
     = [alice_total, \<lparr>s_user_id = ''bob'', s_league_id = 9, s_total_score = Fin 5\<rparr>]"
    by code_simp
  show "league_standings (recalculateScores2 2
        (formatMultipliers2 (getSettings (settings db_stale))) db_stale)
     = [alice_total]"
    by code_simp
  show "formatMultipliers1 (getSettings (settings db_single)) 1 = Some (Fin (5 / 2))"
    by code_simp
  show "formatMultipliers2 (getSettings (settings db_single)) 1 = Some (Fin 2)"
    by code_simp
  show "user_queen_scores (recalculateScores1 2 db_single) = [scored_jinkx, scored_sasha]"
    by code_simp
  show "user_queen_scores (recalculateScores2 2
        (formatMultipliers2 (getSettings (settings db_single))) db_single)
     = [scored_jinkx\<lparr>q_calculated_points := Fin 14\<rparr>, scored_sasha]"
    by code_simp
qed

section \<open>Memberships\<close>

lemma insert_do_nothing_present:
  "key new \<in> set (map key tbl) \<Longrightarrow> insert_do_nothing key new tbl = tbl"
  by (simp add: insert_do_nothing_def)

lemma insert_do_nothing_distinct:
  "distinct (map key tbl) \<Longrightarrow> distinct (map key (insert_do_nothing key new tbl))"
  by (simp add: insert_do_nothing_def)

lemma find_filter:
  "find P xs = Some x \<Longrightarrow> \<exists>rest. filter P xs = x # rest"
  by (induction xs) (auto split: if_splits)

lemma POST_join1_members:
  "league_members (snd (POST_join1 userId code s)) =
     (case find (\<lambda>l. l_invite_code l = toUpperCase code) (leagues s) of
        None \<Rightarrow> league_members s
      | Some l \<Rightarrow> insert_do_nothing membership_key
                    \<lparr>m_league_id = l_id l, m_user_id = userId\<rparr> (league_members s))"
proof (cases "find (\<lambda>l. l_invite_code l = toUpperCase code) (leagues s)")
  case None
  then have "filter (\<lambda>l. l_invite_code l = toUpperCase code) (leagues s) = []"
    by (auto simp: find_None_iff filter_empty_conv)
  with None show ?thesis by (simp add: POST_join1_def)
next
  case (Some l)
  from find_filter[OF this] obtain rest where
    "filter (\<lambda>l. l_invite_code l = toUpperCase code) (leagues s) = l # rest" ..
  with Some show ?thesis by (simp add: POST_join1_def)
qed

lemma POST_join2_members:
  "league_members (snd (POST_join2 (Some userId) code s)) =
     (if userId = [] then league_members s
      else case find (\<lambda>l. l_invite_code l = toUpperCase (trim code)) (leagues s) of
             None \<Rightarrow> league_members s
           | Some l \<Rightarrow> insert_do_nothing membership_key
                         \<lparr>m_league_id = l_id l, m_user_id = userId\<rparr> (league_members s))"
proof (cases "find (\<lambda>l. l_invite_code l = toUpperCase (trim code)) (leagues s)")
  case None
  then have "filter (\<lambda>l. l_invite_code l = toUpperCase (trim code)) (leagues s) = []"
    by (auto simp: find_None_iff filter_empty_conv)
  with None show ?thesis by (simp add: POST_join2_def)
next
  case (Some l)
  from find_filter[OF this] obtain rest where
    "filter (\<lambda>l. l_invite_code l = toUpperCase (trim code)) (leagues s) = l # rest" ..
  with Some show ?thesis by (simp add: POST_join2_def)
qed

lemma POST_join2_no_cookie: "league_members (snd (POST_join2 None code s)) = league_members s"
  by (simp add: POST_join2_def)

text \<open>
  C9. Both handlers of a join request keep \<open>league_members\<close> free of two rows with the
  same league and user, and a request of a user who is already a member of the league
  with the invite code leaves \<open>league_members\<close> as it is.
\<close>

theorem join_keeps_memberships_unique:
  "(distinct (map membership_key (league_members s)) \<longrightarrow>
      distinct (map membership_key (league_members (snd (POST_join1 userId code s))))
    \<and> distinct (map membership_key (league_members (snd (POST_join2 cookie code s)))))
 \<and> (find (\<lambda>l. l_invite_code l = toUpperCase code) (leagues s) = Some l
    \<and> (l_id l, userId) \<in> set (map membership_key (league_members s)) \<longrightarrow>
      league_members (snd (POST_join1 userId code s)) = league_members s)
 \<and> (find (\<lambda>l. l_invite_code l = toUpperCase (trim code)) (leagues s) = Some l
    \<and> (l_id l, userId) \<in> set (map membership_key (league_members s)) \<longrightarrow>
      league_members (snd (POST_join2 (Some userId) code s)) = league_members s)"
proof (intro conjI impI)
  assume d: "distinct (map membership_key (league_members s))"
  show "distinct (map membership_key (league_members (snd (POST_join1 userId code s))))"
    unfolding POST_join1_members
    using d by (simp add: insert_do_nothing_distinct split: option.splits)
  show "distinct (map membership_key (league_members (snd (POST_join2 cookie code s))))"
  proof (cases cookie)
    case None
    with d show ?thesis by (simp add: POST_join2_no_cookie)
  next
    case (Some u)
    show ?thesis
      unfolding Some POST_join2_members
      using d by (simp add: insert_do_nothing_distinct split: option.splits)
  qed
next
  assume a: "find (\<lambda>l. l_invite_code l = toUpperCase code) (leagues s) = Some l
      \<and> (l_id l, userId) \<in> set (map membership_key (league_members s))"
  then have "membership_key \<lparr>m_league_id = l_id l, m_user_id = userId\<rparr>
      \<in> set (map membership_key (league_members s))"
    by (simp add: membership_key_def)
  with a show "league_members (snd (POST_join1 userId code s)) = league_members s"
    unfolding POST_join1_members by (simp add: insert_do_nothing_present)
next
  assume a: "find (\<lambda>l. l_invite_code l = toUpperCase (trim code)) (leagues s) = Some l
      \<and> (l_id l, userId) \<in> set (map membership_key (league_members s))"
  then have "membership_key \<lparr>m_league_id = l_id l, m_user_id = userId\<rparr>
      \<in> set (map membership_key (league_members s))"
    by (simp add: membership_key_def)
  with a show "league_members (snd (POST_join2 (Some userId) code s)) = league_members s"
    unfolding POST_join2_members by (simp add: insert_do_nothing_present)
qed

theorem join_keeps_memberships_unique_witness:
  "distinct (map membership_key (league_members db_joined))
   \<and> distinct (map membership_key
        (league_members (snd (POST_join1 ''carol'' ''abcd1234'' db_joined))))
   \<and> distinct (map membership_key
        (league_members (snd (POST_join2 (Some ''carol'') ''abcd1234'' db_joined))))
   \<and> league_members (snd (POST_join1 ''alice'' ''abcd1234'' db_league))
        = league_members db_joined
   \<and> find (\<lambda>l. l_invite_code l = toUpperCase ''abcd1234'') (leagues db_joined) = Some werk_room
   \<and> find (\<lambda>l. l_invite_code l = toUpperCase (trim ''abcd1234'')) (leagues db_joined)
        = Some werk_room
   \<and> (l_id werk_room, ''alice'') \<in> set (map membership_key (league_members db_joined))
   \<and> league_members (snd (POST_join1 ''alice'' ''abcd1234'' db_joined))
        = league_members db_joined
   \<and> league_members (snd (POST_join2 (Some ''alice'') ''abcd1234'' db_joined))
        = league_members db_joined"
proof -
  note T1 = join_keeps_memberships_unique[of db_joined "''carol''" "''abcd1234''"
      "Some ''carol''" werk_room]
  note T2 = join_keeps_memberships_unique[of db_joined "''alice''" "''abcd1234''"
      "Some ''alice''" werk_room]
  have d: "distinct (map membership_key (league_members db_joined))"
    by (simp add: db_joined_def db_league_def db_empty_def membership_key_def)
  have f1: "find (\<lambda>l. l_invite_code l = toUpperCase ''abcd1234'') (leagues db_joined)
      = Some werk_room"
    by code_simp
  have f2: "find (\<lambda>l. l_invite_code l = toUpperCase (trim ''abcd1234'')) (leagues db_joined)
      = Some werk_room"
    by code_simp
  have m: "(l_id werk_room, ''alice'') \<in> set (map membership_key (league_members db_joined))"
    by (simp add: db_joined_def db_league_def db_empty_def werk_room_def membership_key_def)
  have j: "league_members (snd (POST_join1 ''alice'' ''abcd1234'' db_league))
        = league_members db_joined"
    by code_simp
  from T1 d have c1: "distinct (map membership_key
        (league_members (snd (POST_join1 ''carol'' ''abcd1234'' db_joined))))"
    and c2: "distinct (map membership_key
        (league_members (snd (POST_join2 (Some ''carol'') ''abcd1234'' db_joined))))"
    by blast+
  from T2 f1 m have c3: "league_members (snd (POST_join1 ''alice'' ''abcd1234'' db_joined))
        = league_members db_joined"
    by blast
  from T2 f2 m have c4: "league_members (snd (POST_join2 (Some ''alice'') ''abcd1234'' db_joined))
        = league_members db_joined"
    by blast
  from d c1 c2 j f1 f2 m c3 c4 show ?thesis by blast
qed

end
